theory Spec2Isabelle
  imports Complex_Main "HOL-Library.Multiset"
begin

section \<open>Data model of the competition socket handlers\<close>

text \<open>
  The handlers \<^verbatim>\<open>handleStartCompetition\<close> and \<^verbatim>\<open>handleEndCompetition\<close> work on three
  kinds of data: the Mongoose document of a competition, the in-memory session object
  \<^verbatim>\<open>compData\<close> held in the \<^verbatim>\<open>activeCompetitions\<close> map, and the participant objects in
  \<^verbatim>\<open>compData.participants\<close>.  A JavaScript number is modelled as a real (the value NaN
  never reaches a result record, \<^verbatim>\<open>NaN || 0\<close> being 0; the infinities and the rounding
  of floating-point numbers are not modelled), a timestamp
  (\<^verbatim>\<open>Date.now()\<close>) as an integer number of milliseconds, and a property that may be
  \<^verbatim>\<open>undefined\<close> as an option.
\<close>

type_synonym number = real
type_synonym time = int

text \<open>\<^verbatim>\<open>p.competitionData\<close>: every property may be missing (\<^verbatim>\<open>typingTime\<close> is not
  written by the start handler at all).\<close>

record competitionData =
  correctChars :: "number option"
  totalChars :: "number option"
  wpm :: "number option"
  accuracy :: "number option"
  errors :: "number option"
  backspaces :: "number option"
  testStartTime :: "time option"
  wordsTyped :: "number option"
  completed :: "bool option"
  typingTime :: "number option"

record participant =
  name :: string
  socketId :: string
  competitionData :: "competitionData option"

text \<open>One element of \<^verbatim>\<open>finalResults\<close> (lines 101-115 of the end handler).\<close>

record result =
  r_participantName :: string
  r_participantId :: string
  r_wpm :: number
  r_accuracy :: number
  r_correctChars :: number
  r_totalChars :: number
  r_incorrectChars :: number
  r_errors :: number
  r_backspaces :: number
  r_rank :: nat
  r_typingTime :: number
  r_wordsTyped :: number
  r_completed :: bool

section \<open>Final results and ranking\<close>

text \<open>\<^verbatim>\<open>x || 0\<close> and \<^verbatim>\<open>x || false\<close> on a property that is a number (a boolean) or
  undefined.\<close>

definition or0 :: "number option \<Rightarrow> number" where
  "or0 x = (case x of None \<Rightarrow> 0 | Some v \<Rightarrow> v)"

definition orFalse :: "bool option \<Rightarrow> bool" where
  "orFalse x = (case x of None \<Rightarrow> False | Some b \<Rightarrow> b)"

text \<open>The empty object of \<^verbatim>\<open>p.competitionData || {}\<close>.\<close>

definition emptyData :: competitionData where
  "emptyData = \<lparr> correctChars = None, totalChars = None, wpm = None, accuracy = None,
     errors = None, backspaces = None, testStartTime = None, wordsTyped = None,
     completed = None, typingTime = None \<rparr>"

text \<open>The callback of \<^verbatim>\<open>participantsArray.map\<close>.\<close>

definition toResult :: "participant \<Rightarrow> result" where
  "toResult p =
    (let data = (case competitionData p of None \<Rightarrow> emptyData | Some d \<Rightarrow> d) in
     \<lparr> r_participantName = name p,
       r_participantId = socketId p,
       r_wpm = or0 (wpm data),
       r_accuracy = or0 (accuracy data),
       r_correctChars = or0 (correctChars data),
       r_totalChars = or0 (totalChars data),
       r_incorrectChars = or0 (errors data),
       r_errors = or0 (errors data),
       r_backspaces = or0 (backspaces data),
       r_rank = 0,
       r_typingTime = or0 (typingTime data),
       r_wordsTyped = or0 (wordsTyped data),
       r_completed = orFalse (completed data) \<rparr>)"

text \<open>
  \<^verbatim>\<open>Array.prototype.sort\<close> with a comparator is a stable sort: an element moves in front
  of another only if the comparator says so.  It is modelled as the stable insertion sort
  for a comparator that returns a number; the element \<open>x\<close> goes in front of the first
  \<open>y\<close> with \<open>cmp x y \<le> 0\<close>.
\<close>

fun insertBy :: "('a \<Rightarrow> 'a \<Rightarrow> number) \<Rightarrow> 'a \<Rightarrow> 'a list \<Rightarrow> 'a list" where
  "insertBy cmp x [] = [x]"
| "insertBy cmp x (y # ys) =
     (if cmp x y \<le> 0 then x # y # ys else y # insertBy cmp x ys)"

definition sortBy :: "('a \<Rightarrow> 'a \<Rightarrow> number) \<Rightarrow> 'a list \<Rightarrow> 'a list" where
  "sortBy cmp xs = foldr (insertBy cmp) xs []"

text \<open>The comparator \<^verbatim>\<open>(a, b) => b.wpm - a.wpm\<close>.\<close>

definition byWpmDesc :: "result \<Rightarrow> result \<Rightarrow> number" where
  "byWpmDesc a b = r_wpm b - r_wpm a"

text \<open>\<^verbatim>\<open>finalResults.forEach((result, index) => { result.rank = index + 1 })\<close>, started at
  index \<open>i\<close>.\<close>

fun assignRanks :: "nat \<Rightarrow> result list \<Rightarrow> result list" where
  "assignRanks i [] = []"
| "assignRanks i (r # rs) = r\<lparr>r_rank := i + 1\<rparr> # assignRanks (Suc i) rs"

text \<open>Lines 118-124: sort by WPM, descending, then number the records.\<close>

definition rankResults :: "result list \<Rightarrow> result list" where
  "rankResults rs = assignRanks 0 (sortBy byWpmDesc rs)"

text \<open>Lines 96-124: the final results of a list of participants (the values of the
  \<^verbatim>\<open>participants\<close> map in insertion order).\<close>

definition finalResults :: "participant list \<Rightarrow> result list" where
  "finalResults participantsArray = rankResults (map toResult participantsArray)"

text \<open>The record without its rank, to compare records before and after ranking.\<close>

definition unranked :: "result \<Rightarrow> result" where
  "unranked r = r\<lparr>r_rank := 0\<rparr>"

section \<open>Documents, sessions, effects\<close>

text \<open>\<^verbatim>\<open>competition.modeConfig\<close>, as the create route stores it: every property is optional
  there (a timed competition needs a time limit only).\<close>

record modeConfig =
  timeLimit :: "nat option"
  targetWords :: "nat option"
  textPool :: "string list option"

text \<open>One element of \<^verbatim>\<open>competition.finalRankings\<close> (lines 129-137).\<close>

record ranking =
  fr_rank :: nat
  fr_participantName :: string
  fr_averageWpm :: number
  fr_averageAccuracy :: number
  fr_totalRoundsCompleted :: nat
  fr_highestWpm :: number
  fr_lowestWpm :: number

text \<open>The properties of the competition document that the two handlers read or write.\<close>

record competition =
  status :: string
  mode :: string
  modeConfig :: "modeConfig option"
  startedAt :: "time option"
  completedAt :: "time option"
  finalRankings :: "ranking list"

text \<open>
  The session object \<^verbatim>\<open>compData\<close>.  \<^verbatim>\<open>participants\<close> is a JavaScript Map, whose
  \<^verbatim>\<open>forEach\<close> and \<^verbatim>\<open>values()\<close> go in insertion order: an association list.
\<close>

record compData =
  competitionInProgress :: bool
  participants :: "(string \<times> participant) list"
  lastLeaderboardUpdate :: "time option"

text \<open>The object pushed to \<^verbatim>\<open>results\<close> of a Participant document (lines 149-160).\<close>

record storedResult =
  s_wpm :: number
  s_accuracy :: number
  s_correctChars :: number
  s_totalChars :: number
  s_errors :: number
  s_backspaces :: number
  s_typingTime :: number
  s_wordsTyped :: number
  s_completed :: bool
  s_createdAt :: time

text \<open>\<^verbatim>\<open>competitionConfig\<close>: the empty object, the timed one (time limit, text) or the
  word-count one (target words, text).\<close>

datatype competitionConfig =
    EmptyConfig
  | TimedConfig "nat option" "string option"
  | WordCountConfig "nat option" "string option"

record entry =
  e_name :: string
  e_wpm :: number
  e_accuracy :: number
  e_rank :: nat

datatype payload =
    ErrorMessage string
  | CompetitionStarted competitionConfig time
  | CompetitionEnded "result list" string
  | LeaderboardUpdate "entry list"

text \<open>\<^verbatim>\<open>socket.emit\<close> to the socket with the given id, and \<^verbatim>\<open>io.to(room).emit\<close>.\<close>

datatype emission = ToSocket string payload | ToRoom string payload

text \<open>
  Both handlers are \<^verbatim>\<open>async\<close>: a call runs to its next \<^verbatim>\<open>await\<close> and is suspended there
  until the database operation settles; other events are handled in between.  A suspended
  call is a task:
  \<^item> the start handler waiting at \<^verbatim>\<open>Competition.findByIdAndUpdate\<close> (line 66), with the
    socket, the competition id, the document and the configuration it holds;
  \<^item> the end handler waiting at \<^verbatim>\<open>competition.save()\<close> (line 139), with the id, the
    document, \<^verbatim>\<open>participantsArray\<close> and \<^verbatim>\<open>finalResults\<close>;
  \<^item> the end handler waiting at \<^verbatim>\<open>Participant.findOneAndUpdate\<close> (line 145) for one
    result, with the results the loop has still to visit.
\<close>

datatype task =
    StartAwaitUpdate string string competition competitionConfig
  | EndAwaitSave string competition "participant list" "result list"
  | EndAwaitPush string competition "participant list" "result list" result "result list"

text \<open>A pending \<^verbatim>\<open>setTimeout\<close> callback of line 79: the instant it is due, and the
  competition id and document its closure holds.\<close>

datatype timer = Timer time string competition

text \<open>
  Everything the handlers touch: the two database collections, the
  \<^verbatim>\<open>activeCompetitions\<close> map, the pending timers, the suspended calls, the events sent
  and the lines written to the console.  A session object is reached through its id:
  the handlers under study never replace an entry of \<^verbatim>\<open>activeCompetitions\<close>, so the
  \<^verbatim>\<open>compData\<close> held by a timer closure or passed by a caller is this entry.
\<close>

record world =
  db_competitions :: "string \<rightharpoonup> competition"
  db_participants :: "(string \<times> string) \<rightharpoonup> storedResult list"
  activeCompetitions :: "string \<rightharpoonup> compData"
  timers :: "timer list"
  suspended :: "task list"
  emitted :: "emission list"
  console :: "string list"

text \<open>The payload of the socket event: only \<^verbatim>\<open>competitionId\<close> is read; whatever else the
  client sends is the extension of the record.\<close>

record data =
  competitionId :: string

section \<open>Leaderboard broadcast\<close>

definition room :: "string \<Rightarrow> string" where
  "room cid = ''competition_'' @ cid"

definition toEntry :: "result \<Rightarrow> entry" where
  "toEntry r = \<lparr> e_name = r_participantName r, e_wpm = r_wpm r,
     e_accuracy = r_accuracy r, e_rank = r_rank r \<rparr>"

text \<open>
  Modelled from the spec: \<^verbatim>\<open>updateAndBroadcastLeaderboard\<close> lives in
  \<^verbatim>\<open>utils/leaderboard\<close>, which is not among the sources.  The spec (4.6, 4.5) says:
  recompute the full leaderboard via the ranking calculator over all live participant
  records, emit it to every subscriber of the session, then set the last-broadcast
  timestamp to now; a missing session is not a crash.
\<close>

definition updateAndBroadcastLeaderboard :: "time \<Rightarrow> string \<Rightarrow> world \<Rightarrow> world" where
  "updateAndBroadcastLeaderboard now cid w =
    (case activeCompetitions w cid of
       None \<Rightarrow> w
     | Some cd \<Rightarrow>
         w\<lparr> activeCompetitions := (activeCompetitions w)(cid \<mapsto> cd\<lparr>lastLeaderboardUpdate := Some now\<rparr>),
            emitted := emitted w @
              [ToRoom (room cid)
                 (LeaderboardUpdate (map toEntry (finalResults (map snd (participants cd)))))] \<rparr>)"

text \<open>
  Modelled from the spec: the progress handler, which holds the throttle of the
  leaderboard, is not among the sources.  The spec (4.6) says: if
  \<open>now - lastBroadcastAt \<ge> interval\<close> (interval = 1000 ms) the leaderboard is recomputed
  and emitted and \<open>lastBroadcastAt\<close> is set to now; if the interval has not elapsed the
  call is a no-op, not a deferred or queued recomputation.  The README quotes the
  condition of the server as
  \<^verbatim>\<open>!compData.lastLeaderboardUpdate || Date.now() - compData.lastLeaderboardUpdate > 1000\<close>,
  with \<open>>\<close> where the spec has \<open>\<ge>\<close>.  Both comparisons are modelled: \<open>strict\<close> is
  true for the one of the README and false for the one of the spec.  A session that has
  not broadcast yet has no timestamp; the timestamp 0 is falsy in JavaScript and counts
  as none.
\<close>

definition throttleOpen :: "bool \<Rightarrow> time \<Rightarrow> compData \<Rightarrow> bool" where
  "throttleOpen strict now cd =
    (case lastLeaderboardUpdate cd of
       None \<Rightarrow> True
     | Some l \<Rightarrow> l = 0 \<or> (if strict then now - l > 1000 else now - l \<ge> 1000))"

text \<open>
  Modelled from the spec: the notification that a progress update sends to the
  broadcaster (\<^verbatim>\<open>notifyDirty\<close> in 4.6 of the spec; in the README the lines of the
  progress handler around the call of \<^verbatim>\<open>updateAndBroadcastLeaderboard\<close>).  The handler
  is not among the sources.
\<close>

definition progressNotification :: "bool \<Rightarrow> time \<Rightarrow> string \<Rightarrow> world \<Rightarrow> world" where
  "progressNotification strict now cid w =
    (case activeCompetitions w cid of
       None \<Rightarrow> w
     | Some cd \<Rightarrow>
         if throttleOpen strict now cd then updateAndBroadcastLeaderboard now cid w else w)"

text \<open>The instants, among those of a sequence of progress notifications of one session,
  at which an event was emitted; and the timestamp of the last broadcast of a session.\<close>

fun emissionTimes :: "bool \<Rightarrow> time list \<Rightarrow> string \<Rightarrow> world \<Rightarrow> time list" where
  "emissionTimes strict [] cid w = []"
| "emissionTimes strict (t # ts) cid w =
     (let w' = progressNotification strict t cid w in
      if length (emitted w') > length (emitted w)
      then t # emissionTimes strict ts cid w'
      else emissionTimes strict ts cid w')"

definition lastBroadcast :: "string \<Rightarrow> world \<Rightarrow> time option" where
  "lastBroadcast cid w =
    (case activeCompetitions w cid of None \<Rightarrow> None | Some cd \<Rightarrow> lastLeaderboardUpdate cd)"

text \<open>The distance of two broadcasts that the throttle asks for.\<close>

definition gap :: "bool \<Rightarrow> time \<Rightarrow> time \<Rightarrow> bool" where
  "gap strict a b = (if strict then b - a > 1000 else b - a \<ge> 1000)"

section \<open>Scoring\<close>

text \<open>
  Modelled from the spec: the scoring calculator is part of the progress handler, which
  is not among the sources.  The spec (4.3) gives the formulas, as does the README:
  \<^verbatim>\<open>wpm = (correctChars / 5) / (elapsedSeconds / 60)\<close> and
  \<^verbatim>\<open>accuracy = totalChars > 0 ? (correctChars / totalChars) * 100 : 0\<close>, neither of them
  rounded.  The numbers are reals here; the floating-point rounding of the quotients is
  not modelled.
\<close>

definition calcWpm :: "number \<Rightarrow> number \<Rightarrow> number" where
  "calcWpm correctCount elapsedSeconds = (correctCount / 5) / (elapsedSeconds / 60)"

text \<open>Modelled from the spec: the accuracy of the same calculator, which is not among the
  sources; the formula is the one of 4.3.\<close>

definition calcAccuracy :: "number \<Rightarrow> number \<Rightarrow> number" where
  "calcAccuracy correctCount totalCount =
    (if totalCount > 0 then (correctCount / totalCount) * 100 else 0)"

section \<open>The end handler\<close>

definition toRanking :: "result \<Rightarrow> ranking" where
  "toRanking r = \<lparr> fr_rank = r_rank r, fr_participantName = r_participantName r,
     fr_averageWpm = r_wpm r, fr_averageAccuracy = r_accuracy r,
     fr_totalRoundsCompleted = 1, fr_highestWpm = r_wpm r, fr_lowestWpm = r_wpm r \<rparr>"

definition toStored :: "time \<Rightarrow> result \<Rightarrow> storedResult" where
  "toStored now r = \<lparr> s_wpm = r_wpm r, s_accuracy = r_accuracy r,
     s_correctChars = r_correctChars r, s_totalChars = r_totalChars r,
     s_errors = r_errors r, s_backspaces = r_backspaces r,
     s_typingTime = r_typingTime r, s_wordsTyped = r_wordsTyped r,
     s_completed = r_completed r, s_createdAt = now \<rparr>"

text \<open>
  \<^verbatim>\<open>handleEndCompetition\<close> from its call to the \<^verbatim>\<open>await\<close> of line 139: the guard, the
  flag, the final results, the fields of the document; then the call is suspended at
  \<^verbatim>\<open>competition.save()\<close>.  Nothing in these lines throws.
\<close>

definition handleEndCompetition :: "time \<Rightarrow> string \<Rightarrow> competition \<Rightarrow> world \<Rightarrow> world" where
  "handleEndCompetition endTime cid competition w =
    (case activeCompetitions w cid of
       None \<Rightarrow> w
     | Some compData \<Rightarrow>
         if \<not> competitionInProgress compData then w
         else
           let participantsArray = map snd (participants compData);
               results = finalResults participantsArray;
               competition' = competition\<lparr> status := ''completed'',
                 completedAt := Some endTime, finalRankings := map toRanking results \<rparr>
           in w\<lparr> activeCompetitions :=
                   (activeCompetitions w)(cid \<mapsto> compData\<lparr>competitionInProgress := False\<rparr>),
                 suspended := suspended w @
                   [EndAwaitSave cid competition' participantsArray results] \<rparr>)"

text \<open>The \<^verbatim>\<open>catch\<close> block of the end handler: the error is written to the console.\<close>

definition endFailed :: "world \<Rightarrow> world" where
  "endFailed w = w\<lparr> console := console w @ [''End competition error''] \<rparr>"

text \<open>
  The loop of lines 142-166 over the results still to visit, and what follows it.  A
  result whose participant is found suspends the call at line 145; when none is left
  the final results are broadcast (line 169) and the leaderboard is updated (line 175).
\<close>

fun saveResults ::
  "time \<Rightarrow> string \<Rightarrow> competition \<Rightarrow> participant list \<Rightarrow> result list \<Rightarrow> result list
    \<Rightarrow> world \<Rightarrow> world" where
  "saveResults now cid c ps results [] w =
     updateAndBroadcastLeaderboard now cid
       (w\<lparr> emitted := emitted w @ [ToRoom (room cid) (CompetitionEnded results (mode c))] \<rparr>)"
| "saveResults now cid c ps results (r # rest) w =
     (case find (\<lambda>p. socketId p = r_participantId r) ps of
        None \<Rightarrow> saveResults now cid c ps results rest w
      | Some p \<Rightarrow> w\<lparr> suspended := suspended w @ [EndAwaitPush cid c ps results r rest] \<rparr>)"

text \<open>\<^verbatim>\<open>$push\<close> with \<^verbatim>\<open>upsert: true\<close> on the Participant document of a socket id and a
  competition id.\<close>

definition pushResult ::
  "string \<times> string \<Rightarrow> storedResult \<Rightarrow> world \<Rightarrow> world" where
  "pushResult k v w =
    w\<lparr> db_participants := (db_participants w)
         (k \<mapsto> (case db_participants w k of None \<Rightarrow> [] | Some vs \<Rightarrow> vs) @ [v]) \<rparr>"

section \<open>The start handler\<close>

text \<open>\<^verbatim>\<open>xs[i]\<close>, undefined out of range.\<close>

definition elemAt :: "'a list \<Rightarrow> nat \<Rightarrow> 'a option" where
  "elemAt xs i = (if i < length xs then Some (xs ! i) else None)"

text \<open>
  Lines 30-48.  Reading a property of an undefined \<^verbatim>\<open>modeConfig\<close> or
  \<^verbatim>\<open>textPool\<close> throws a TypeError: the result \<open>None\<close>.  \<open>rnd\<close> is the value of
  \<^verbatim>\<open>Math.random()\<close>.
\<close>

definition buildConfig :: "real \<Rightarrow> competition \<Rightarrow> competitionConfig option" where
  "buildConfig rnd c =
    (if mode c = ''timed'' then
       (case modeConfig c of
          None \<Rightarrow> None
        | Some mc \<Rightarrow>
            (case textPool mc of
               None \<Rightarrow> None
             | Some pool \<Rightarrow> Some (TimedConfig (timeLimit mc) (elemAt pool 0))))
     else if mode c = ''word-count'' then
       (case modeConfig c of
          None \<Rightarrow> None
        | Some mc \<Rightarrow>
            (case textPool mc of
               None \<Rightarrow> None
             | Some pool \<Rightarrow>
                 Some (WordCountConfig (targetWords mc)
                   (elemAt pool (nat \<lfloor>rnd * real (length pool)\<rfloor>)))))
     else Some EmptyConfig)"

text \<open>The object assigned to \<^verbatim>\<open>p.competitionData\<close> in lines 52-62, with the value of
  \<^verbatim>\<open>Date.now()\<close>.\<close>

definition startData :: "time \<Rightarrow> competitionData" where
  "startData t = \<lparr> correctChars = Some 0, totalChars = Some 0, wpm = Some 0,
     accuracy = Some 0, errors = Some 0, backspaces = Some 0, testStartTime = Some t,
     wordsTyped = Some 0, completed = Some False, typingTime = None \<rparr>"

text \<open>\<^verbatim>\<open>compData.participants.forEach\<close> of line 51.  Each participant reads the clock
  anew: \<open>clock i\<close> is the value of the \<open>i\<close>-th reading of the server clock in this call.\<close>

fun resetParticipants ::
  "(nat \<Rightarrow> time) \<Rightarrow> nat \<Rightarrow> (string \<times> participant) list \<Rightarrow> (string \<times> participant) list" where
  "resetParticipants clock i [] = []"
| "resetParticipants clock i ((k, p) # ps) =
     (k, p\<lparr>competitionData := Some (startData (clock i))\<rparr>) # resetParticipants clock (Suc i) ps"

text \<open>The \<^verbatim>\<open>catch\<close> block of the start handler.\<close>

definition startFailed :: "string \<Rightarrow> world \<Rightarrow> world" where
  "startFailed socket w =
    w\<lparr> console := console w @ [''Start competition error''],
       emitted := emitted w @ [ToSocket socket (ErrorMessage ''Failed to start competition'')] \<rparr>"

text \<open>
  \<^verbatim>\<open>handleStartCompetition\<close> from the moment \<^verbatim>\<open>Competition.findById\<close> has settled
  (nothing happens in the call before) to the \<^verbatim>\<open>await\<close> of line 66.  \<open>found\<close> tells
  whether the query settled without an error; \<open>clock 0\<close> is the reading of
  \<^verbatim>\<open>new Date()\<close> in line 25.  The document is a copy local to the call.  The flag is
  set before the configuration is built: an exception there leaves it set.
\<close>

definition handleStartCompetition ::
  "string \<Rightarrow> bool \<Rightarrow> (nat \<Rightarrow> time) \<Rightarrow> real \<Rightarrow> 'a data_scheme \<Rightarrow> world \<Rightarrow> world" where
  "handleStartCompetition socket found clock rnd dat w =
    (let cid = competitionId dat in
     if \<not> found then startFailed socket w
     else
       (case db_competitions w cid of
          None \<Rightarrow>
            w\<lparr> emitted := emitted w @ [ToSocket socket (ErrorMessage ''Competition not found'')] \<rparr>
        | Some doc \<Rightarrow>
            (case activeCompetitions w cid of
               None \<Rightarrow> w
             | Some compData \<Rightarrow>
                 if competitionInProgress compData
                 then w\<lparr> console := console w @
                          [''[RACE_CONDITION] Blocked duplicate startCompetition for '' @ cid] \<rparr>
                 else
                   (let started = compData\<lparr>competitionInProgress := True\<rparr>;
                        competition = doc\<lparr> startedAt := Some (clock 0), status := ''ongoing'' \<rparr>
                    in (case buildConfig rnd competition of
                          None \<Rightarrow>
                            startFailed socket
                              (w\<lparr> activeCompetitions := (activeCompetitions w)(cid \<mapsto> started) \<rparr>)
                        | Some competitionConfig \<Rightarrow>
                            w\<lparr> activeCompetitions := (activeCompetitions w)
                                 (cid \<mapsto> started\<lparr> participants :=
                                      resetParticipants clock 1 (participants started) \<rparr>),
                               suspended := suspended w @
                                 [StartAwaitUpdate socket cid competition competitionConfig] \<rparr>)))))"

text \<open>The delay Node gives a timer: the argument, or 1 ms when that is NaN, below 1 or
  above \<open>2\<^sup>3\<^sup>1 - 1\<close>.\<close>

definition timerDelay :: "nat option \<Rightarrow> time" where
  "timerDelay limit =
    (case limit of
       None \<Rightarrow> 1
     | Some l \<Rightarrow> if int l * 1000 < 1 \<or> int l * 1000 > 2147483647 then 1 else int l * 1000)"

section \<open>Resuming a suspended call\<close>

text \<open>
  The awaited database operation settles, with success (\<open>ok\<close>) or with an error, at the
  instant \<open>now\<close>, and the call runs on to its next \<^verbatim>\<open>await\<close> or to its end.
  \<^item> Start, after line 66: the stored document is updated, the start is broadcast, and a
    timed competition arms its timer (lines 72-82).  \<^verbatim>\<open>findByIdAndUpdate\<close> leaves a
    missing document missing.
  \<^item> End, after line 139: the document is stored under its id (the callers pass the
    id of the document as \<^verbatim>\<open>competitionId\<close>), and the loop over the results begins.
  \<^item> End, after line 145: the result is stored, and the loop goes on.
  An error goes to the \<^verbatim>\<open>catch\<close> block of the handler.
\<close>

fun resume :: "bool \<Rightarrow> time \<Rightarrow> task \<Rightarrow> world \<Rightarrow> world" where
  "resume ok now (StartAwaitUpdate socket cid c cfg) w =
     (if \<not> ok then startFailed socket w
      else
        let w1 = w\<lparr> db_competitions :=
                     (case db_competitions w cid of
                        None \<Rightarrow> db_competitions w
                      | Some d \<Rightarrow> (db_competitions w)
                          (cid \<mapsto> d\<lparr> status := ''ongoing'', startedAt := startedAt c \<rparr>)),
                   emitted := emitted w @ [ToRoom (room cid) (CompetitionStarted cfg now)] \<rparr>
        in if mode c = ''timed'' then
             (case modeConfig c of
                None \<Rightarrow> startFailed socket w1
              | Some mc \<Rightarrow>
                  w1\<lparr> timers := timers w1 @ [Timer (now + timerDelay (timeLimit mc)) cid c] \<rparr>)
           else w1)"
| "resume ok now (EndAwaitSave cid c ps results) w =
     (if \<not> ok then endFailed w
      else saveResults now cid c ps results results
             (w\<lparr> db_competitions := (db_competitions w)(cid \<mapsto> c) \<rparr>))"
| "resume ok now (EndAwaitPush cid c ps results r rest) w =
     (if \<not> ok then endFailed w
      else saveResults now cid c ps results rest
             (pushResult (r_participantId r, cid) (toStored now r) w))"

section \<open>Events\<close>

text \<open>
  What can happen to the server, one event at a time (Node runs one callback at a time):
  a client asks for a start; somebody calls the end handler (a manual end); a pending
  timer that is due fires and calls the end handler; the database operation a suspended
  call waits for settles.
\<close>

datatype event =
    StartCompetition string string bool "nat \<Rightarrow> time" real
  | EndCompetition string competition time
  | TimerFire nat time
  | Settle nat bool time

definition removeAt :: "nat \<Rightarrow> 'a list \<Rightarrow> 'a list" where
  "removeAt i xs = take i xs @ drop (Suc i) xs"

fun step :: "event \<Rightarrow> world \<Rightarrow> world" where
  "step (StartCompetition socket cid found clock rnd) w =
     handleStartCompetition socket found clock rnd \<lparr> competitionId = cid \<rparr> w"
| "step (EndCompetition cid c t) w = handleEndCompetition t cid c w"
| "step (TimerFire i t) w =
     (if i < length (timers w) then
        (case timers w ! i of
           Timer due cid c \<Rightarrow>
             if due \<le> t
             then handleEndCompetition t cid c (w\<lparr> timers := removeAt i (timers w) \<rparr>)
             else w)
      else w)"
| "step (Settle i ok t) w =
     (if i < length (suspended w)
      then resume ok t (suspended w ! i) (w\<lparr> suspended := removeAt i (suspended w) \<rparr>)
      else w)"

definition run :: "event list \<Rightarrow> world \<Rightarrow> world" where
  "run es w = fold step es w"

text \<open>The event is a start request for the session.\<close>

fun startsSession :: "string \<Rightarrow> event \<Rightarrow> bool" where
  "startsSession cid (StartCompetition socket cid' found clock rnd) = (cid' = cid)"
| "startsSession cid e = False"

text \<open>The flag of a session, false when there is no session; the suspended calls of a
  session.\<close>

definition inProgress :: "string \<Rightarrow> world \<Rightarrow> bool" where
  "inProgress cid w =
    (case activeCompetitions w cid of None \<Rightarrow> False | Some cd \<Rightarrow> competitionInProgress cd)"

fun taskId :: "task \<Rightarrow> string" where
  "taskId (StartAwaitUpdate socket cid c cfg) = cid"
| "taskId (EndAwaitSave cid c ps results) = cid"
| "taskId (EndAwaitPush cid c ps results r rest) = cid"

definition inFlight :: "string \<Rightarrow> world \<Rightarrow> task list" where
  "inFlight cid w = filter (\<lambda>t. taskId t = cid) (suspended w)"

section \<open>Accepted triggers\<close>

text \<open>
  A start request is accepted when it passes the guards of lines 9-22 (the document is
  found, the session exists, the flag is false); an end trigger, manual or from a due
  timer, when it passes the guard of line 92 (the session exists, the flag is true).
  \<open>accepted\<close> lists, for one session, the triggers accepted along a sequence of events.
\<close>

datatype transition = Started | Ended

fun startAccepted :: "string \<Rightarrow> event \<Rightarrow> world \<Rightarrow> bool" where
  "startAccepted cid (StartCompetition socket cid' found clock rnd) w =
     (cid' = cid \<and> found \<and> db_competitions w cid \<noteq> None
      \<and> activeCompetitions w cid \<noteq> None \<and> \<not> inProgress cid w)"
| "startAccepted cid e w = False"

fun endAccepted :: "string \<Rightarrow> event \<Rightarrow> world \<Rightarrow> bool" where
  "endAccepted cid (EndCompetition cid' c t) w = (cid' = cid \<and> inProgress cid w)"
| "endAccepted cid (TimerFire i t) w =
     (i < length (timers w)
      \<and> (case timers w ! i of Timer due cid' c \<Rightarrow> cid' = cid \<and> due \<le> t \<and> inProgress cid w))"
| "endAccepted cid e w = False"

fun accepted :: "string \<Rightarrow> event list \<Rightarrow> world \<Rightarrow> transition list" where
  "accepted cid [] w = []"
| "accepted cid (e # es) w =
     (if startAccepted cid e w then [Started]
      else if endAccepted cid e w then [Ended] else [])
     @ accepted cid es (step e w)"

text \<open>Starts and ends take turns, beginning with an end if \<open>b\<close> and with a start
  otherwise.\<close>

fun alternates :: "bool \<Rightarrow> transition list \<Rightarrow> bool" where
  "alternates b [] = True"
| "alternates b (x # xs) = (x = (if b then Ended else Started) \<and> alternates (\<not> b) xs)"

section \<open>A concrete session\<close>

text \<open>A timed competition of 60 seconds with two participants who have joined and not
  typed yet, used to run the handlers on concrete inputs.\<close>

definition demoCompetition :: competition where
  "demoCompetition = \<lparr> status = ''pending'', mode = ''timed'',
     modeConfig = Some \<lparr> timeLimit = Some 60, targetWords = None,
       textPool = Some [''the quick brown fox''] \<rparr>,
     startedAt = None, completedAt = None, finalRankings = [] \<rparr>"

definition alice :: participant where
  "alice = \<lparr> name = ''alice'', socketId = ''s1'', competitionData = None \<rparr>"

definition bob :: participant where
  "bob = \<lparr> name = ''bob'', socketId = ''s2'', competitionData = None \<rparr>"

definition demoSession :: compData where
  "demoSession = \<lparr> competitionInProgress = False,
     participants = [(''s1'', alice), (''s2'', bob)], lastLeaderboardUpdate = None \<rparr>"

definition demoWorld :: world where
  "demoWorld = \<lparr> db_competitions = [''c1'' \<mapsto> demoCompetition],
     db_participants = Map.empty,
     activeCompetitions = [''c1'' \<mapsto> demoSession],
     timers = [], suspended = [], emitted = [], console = [] \<rparr>"

text \<open>The server clock of the examples: the \<open>i\<close>-th reading of a call that begins at
  \<open>t\<close>.\<close>

definition clockFrom :: "time \<Rightarrow> nat \<Rightarrow> time" where
  "clockFrom t i = t + int i"

definition startedWorld :: world where
  "startedWorld =
     run [StartCompetition ''k'' ''c1'' True (clockFrom 1000) 0, Settle 0 True 1010] demoWorld"

text \<open>The stored document once the competition runs, and the world after a manual end
  at 30 s whose three writes (the document, one result for each participant) have
  succeeded.\<close>

definition ongoingCompetition :: competition where
  "ongoingCompetition = demoCompetition\<lparr> status := ''ongoing'', startedAt := Some 1000 \<rparr>"

definition endedWorld :: world where
  "endedWorld =
     run [EndCompetition ''c1'' ongoingCompetition 30000,
          Settle 0 True 30010, Settle 0 True 30020, Settle 0 True 30030] startedWorld"

text \<open>A start, a second start while the competition runs, and a manual end.\<close>

definition demoEvents :: "event list" where
  "demoEvents =
     [StartCompetition ''k'' ''c1'' True (clockFrom 1000) 0, Settle 0 True 1010,
      StartCompetition ''k'' ''c1'' True (clockFrom 2000) 0,
      EndCompetition ''c1'' ongoingCompetition 30000, Settle 0 True 30010]"

section \<open>Properties of the ranking\<close>

lemma sortBy_byWpmDesc: "sortBy byWpmDesc rs = sort_key (\<lambda>r. - r_wpm r) rs"
proof -
  have ins: "insertBy byWpmDesc x ys = insort_key (\<lambda>r. - r_wpm r) x ys" for x ys
    by (induction ys) (simp_all add: byWpmDesc_def)
  show ?thesis
    by (induction rs) (simp_all add: sortBy_def ins)
qed

lemma assignRanks_length: "length (assignRanks i rs) = length rs"
  by (induction rs arbitrary: i) simp_all

lemma assignRanks_ranks: "map r_rank (assignRanks i rs) = [Suc i ..< Suc (i + length rs)]"
proof (induction rs arbitrary: i)
  case Nil
  show ?case by simp
next
  case (Cons r rs)
  have "[Suc i ..< Suc (i + length (r # rs))]
      = Suc i # [Suc (Suc i) ..< Suc (Suc i + length rs)]"
    by (subst upt_rec) simp
  with Cons show ?case by simp
qed

lemma assignRanks_unranked: "map unranked (assignRanks i rs) = map unranked rs"
  by (induction rs arbitrary: i) (simp_all add: unranked_def)

lemma assignRanks_wpm: "map r_wpm (assignRanks i rs) = map r_wpm rs"
  by (induction rs arbitrary: i) simp_all

lemma unranked_sort:
  "map unranked (sort_key (\<lambda>r. - r_wpm r) rs) = sort_key (\<lambda>r. - r_wpm r) (map unranked rs)"
proof -
  have ins: "map unranked (insort_key (\<lambda>r. - r_wpm r) x ys)
      = insort_key (\<lambda>r. - r_wpm r) (unranked x) (map unranked ys)" for x ys
    by (induction ys) (simp_all add: unranked_def)
  show ?thesis
    by (induction rs) (simp_all add: ins)
qed

lemma rankResults_unranked:
  "map unranked (rankResults rs) = sort_key (\<lambda>r. - r_wpm r) (map unranked rs)"
  by (simp add: rankResults_def sortBy_byWpmDesc assignRanks_unranked unranked_sort)

lemma rankResults_length: "length (rankResults rs) = length rs"
  by (simp add: rankResults_def sortBy_byWpmDesc assignRanks_length)

lemma rankResults_ranks: "map r_rank (rankResults rs) = [1 ..< Suc (length rs)]"
  by (simp add: rankResults_def sortBy_byWpmDesc assignRanks_ranks)

lemma rankResults_descending:
  "sorted_wrt (\<lambda>a b. r_wpm b \<le> r_wpm a) (rankResults rs)"
proof -
  have "sorted (map (\<lambda>r. - r_wpm r) (sort_key (\<lambda>r. - r_wpm r) rs))"
    by (rule sorted_sort_key)
  then have "sorted (map uminus (map r_wpm (rankResults rs)))"
    by (simp add: rankResults_def sortBy_byWpmDesc assignRanks_wpm comp_def)
  then show ?thesis
    by (simp add: sorted_wrt_map sorted_map)
qed

lemma rankResults_permutation:
  "mset (map unranked (rankResults rs)) = mset (map unranked rs)"
  by (simp add: rankResults_unranked)

lemma rankResults_stable:
  "filter (\<lambda>r. r_wpm r = w) (map unranked (rankResults rs))
     = filter (\<lambda>r. r_wpm r = w) (map unranked rs)"
proof -
  have "filter (\<lambda>r. - r_wpm r = - w) (sort_key (\<lambda>r. - r_wpm r) (map unranked rs))
      = filter (\<lambda>r. - r_wpm r = - w) (map unranked rs)"
    by (rule sort_key_stable)
  then show ?thesis
    by (simp add: rankResults_unranked)
qed

text \<open>
  Claim C6.  For every list of \<open>N\<close> result records, the ranking returns \<open>N\<close> records that
  are the input records in another order (ranks apart), sorted by wpm descending, with
  ranks \<open>1, 2, ..., N\<close> in that order; and for every wpm value the records with that
  value come out in the order in which they went in (a stable sort, no second key).
\<close>

theorem rank_dense_sorted_stable:
  "length (rankResults rs) = length rs
   \<and> map r_rank (rankResults rs) = [1 ..< Suc (length rs)]
   \<and> sorted_wrt (\<lambda>a b. r_wpm b \<le> r_wpm a) (rankResults rs)
   \<and> mset (map unranked (rankResults rs)) = mset (map unranked rs)
   \<and> (\<forall>w. filter (\<lambda>r. r_wpm r = w) (map unranked (rankResults rs))
           = filter (\<lambda>r. r_wpm r = w) (map unranked rs))"
  using rankResults_length rankResults_ranks rankResults_descending
    rankResults_permutation rankResults_stable
  by blast

section \<open>The flag and the suspended calls\<close>

lemma inProgress_updateAndBroadcastLeaderboard:
  "inProgress cid (updateAndBroadcastLeaderboard now cid' w) = inProgress cid w"
  by (simp add: inProgress_def updateAndBroadcastLeaderboard_def split: option.splits)

lemma inProgress_saveResults:
  "inProgress cid (saveResults now cid' c ps results rest w) = inProgress cid w"
proof (induction rest)
  case Nil
  show ?case
    by (simp add: inProgress_updateAndBroadcastLeaderboard) (simp add: inProgress_def)
next
  case (Cons r rest)
  then show ?case
    by (simp add: inProgress_def split: option.splits)
qed

lemma inProgress_resume:
  "inProgress cid (resume ok now task w) = inProgress cid w"
proof (cases task)
  case (StartAwaitUpdate socket cid' c cfg)
  then show ?thesis
    by (simp add: inProgress_def startFailed_def Let_def split: option.splits)
next
  case (EndAwaitSave cid' c ps results)
  then show ?thesis
    by (simp add: inProgress_saveResults endFailed_def) (simp add: inProgress_def endFailed_def)
next
  case (EndAwaitPush cid' c ps results r rest)
  then show ?thesis
    by (simp add: inProgress_saveResults endFailed_def pushResult_def)
       (simp add: inProgress_def endFailed_def)
qed

lemma inProgress_settle:
  "inProgress cid (step (Settle i ok t) w) = inProgress cid w"
  by (simp add: inProgress_resume) (simp add: inProgress_def)

lemma handleEndCompetition_ignored:
  "\<not> inProgress cid w \<Longrightarrow> handleEndCompetition t cid c w = w"
  by (simp add: handleEndCompetition_def inProgress_def split: option.splits)

lemma handleEndCompetition_accepted:
  assumes "activeCompetitions w cid = Some cd" and "competitionInProgress cd"
  shows "handleEndCompetition t cid c w =
    w\<lparr> activeCompetitions := (activeCompetitions w)(cid \<mapsto> cd\<lparr>competitionInProgress := False\<rparr>),
       suspended := suspended w @
         [EndAwaitSave cid
            (c\<lparr> status := ''completed'', completedAt := Some t,
                finalRankings := map toRanking (finalResults (map snd (participants cd))) \<rparr>)
            (map snd (participants cd)) (finalResults (map snd (participants cd)))] \<rparr>"
  using assms by (simp add: handleEndCompetition_def Let_def)

lemma inProgress_handleEndCompetition:
  "inProgress cid' (handleEndCompetition t cid c w) = (cid' \<noteq> cid \<and> inProgress cid' w)"
  by (auto simp add: handleEndCompetition_def inProgress_def Let_def split: option.splits)

lemma inProgress_handleStartCompetition:
  "inProgress cid (handleStartCompetition socket found clock rnd dat w) =
     (if competitionId dat = cid \<and> found \<and> db_competitions w cid \<noteq> None
         \<and> activeCompetitions w cid \<noteq> None \<and> \<not> inProgress cid w
      then True else inProgress cid w)"
  by (auto simp add: handleStartCompetition_def inProgress_def startFailed_def Let_def
      split: option.splits)

lemma inProgress_step:
  "inProgress cid (step e w) =
     (if startAccepted cid e w then True
      else if endAccepted cid e w then False
      else inProgress cid w)"
proof (cases e)
  case (StartCompetition socket cid' found clock rnd)
  then show ?thesis
    by (simp add: inProgress_handleStartCompetition)
next
  case (EndCompetition cid' c t)
  then show ?thesis
    by (auto simp add: inProgress_handleEndCompetition)
next
  case (TimerFire i t)
  show ?thesis
  proof (cases "i < length (timers w)")
    case True
    obtain due cid' c where tm: "timers w ! i = Timer due cid' c"
      by (cases "timers w ! i")
    have "inProgress cid (w\<lparr> timers := removeAt i (timers w) \<rparr>) = inProgress cid w"
      by (simp add: inProgress_def)
    with True tm TimerFire show ?thesis
      by (auto simp add: inProgress_handleEndCompetition)
  next
    case False
    with TimerFire show ?thesis by simp
  qed
next
  case (Settle i ok t)
  then show ?thesis
    by (simp add: inProgress_settle del: step.simps)
qed

lemma endAccepted_inProgress: "endAccepted cid e w \<Longrightarrow> inProgress cid w"
  by (cases e) (auto split: timer.splits)

lemma startAccepted_not_inProgress: "startAccepted cid e w \<Longrightarrow> \<not> inProgress cid w"
  by (cases e) auto

lemma flag_stays_false:
  assumes "\<not> inProgress cid w" and "\<forall>e \<in> set es. \<not> startsSession cid e"
  shows "\<not> inProgress cid (run es w)"
  using assms
proof (induction es arbitrary: w)
  case Nil
  then show ?case by (simp add: run_def)
next
  case (Cons e es)
  from Cons.prems have "\<not> startAccepted cid e w"
    by (cases e) simp_all
  with Cons.prems(1) have "\<not> inProgress cid (step e w)"
    by (simp add: inProgress_step del: step.simps)
  with Cons.IH [of "step e w"] Cons.prems(2) show ?case
    by (simp add: run_def)
qed

lemma accepted_alternates:
  "alternates (inProgress cid w) (accepted cid es w)"
proof (induction es arbitrary: w)
  case Nil
  show ?case by simp
next
  case (Cons e es)
  have "alternates (inProgress cid (step e w)) (accepted cid es (step e w))"
    by (rule Cons.IH)
  then show ?case
    using endAccepted_inProgress [of cid e w] startAccepted_not_inProgress [of cid e w]
    by (auto simp add: inProgress_step simp del: step.simps)
qed

lemma accepted_last:
  "inProgress cid (run es w) =
     (if accepted cid es w = [] then inProgress cid w
      else last (accepted cid es w) = Started)"
proof (induction es arbitrary: w)
  case Nil
  show ?case by (simp add: run_def)
next
  case (Cons e es)
  have run: "run (e # es) w = run es (step e w)"
    by (simp add: run_def)
  have "inProgress cid (run es (step e w)) =
     (if accepted cid es (step e w) = [] then inProgress cid (step e w)
      else last (accepted cid es (step e w)) = Started)"
    by (rule Cons.IH)
  then show ?case
    unfolding run by (simp add: inProgress_step del: step.simps)
qed

section \<open>Running the concrete session\<close>

lemmas demo_defs = demoWorld_def demoSession_def demoCompetition_def alice_def bob_def
  clockFrom_def
lemmas handler_defs = run_def handleStartCompetition_def handleEndCompetition_def buildConfig_def
  startFailed_def endFailed_def elemAt_def removeAt_def timerDelay_def room_def startData_def
  inProgress_def Let_def

lemmas result_defs = finalResults_def rankResults_def sortBy_def byWpmDesc_def toResult_def
  emptyData_def or0_def orFalse_def toRanking_def toStored_def toEntry_def pushResult_def
  updateAndBroadcastLeaderboard_def

lemma startedWorld_session:
  "activeCompetitions startedWorld ''c1'' =
     Some \<lparr> competitionInProgress = True,
       participants = [(''s1'', alice\<lparr>competitionData := Some (startData 1001)\<rparr>),
                       (''s2'', bob\<lparr>competitionData := Some (startData 1002)\<rparr>)],
       lastLeaderboardUpdate = None \<rparr>"
  by (simp add: startedWorld_def demo_defs handler_defs)

lemma startedWorld_timers:
  "timers startedWorld =
     [Timer 61010 ''c1'' (demoCompetition\<lparr> startedAt := Some 1000, status := ''ongoing'' \<rparr>)]"
  by (simp add: startedWorld_def demo_defs handler_defs)

lemma startedWorld_suspended: "suspended startedWorld = []"
  by (simp add: startedWorld_def demo_defs handler_defs)

lemma startedWorld_emitted: "emitted startedWorld =
   [ToRoom ''competition_c1'' (CompetitionStarted (TimedConfig (Some 60) (Some ''the quick brown fox'')) 1010)]"
  by (simp add: startedWorld_def demo_defs handler_defs)

lemma startedWorld_db: "db_competitions startedWorld ''c1'' =
   Some (demoCompetition\<lparr> status := ''ongoing'', startedAt := Some 1000 \<rparr>)"
  by (simp add: startedWorld_def demo_defs handler_defs)

text \<open>
  Claim C1.  Take a session whose flag is true and let an end trigger (a manual end or
  the timer callback) call the end handler.  That call finalizes: it clears the flag and
  goes on with exactly one set of final results.  Whatever happens afterwards short of
  a new start request for the session (database operations that settle, further end
  triggers, events of other sessions), a second end trigger finds the flag false and
  returns at the guard: a manual call leaves the whole world as it is, and a timer that
  fires is used up and changes nothing else.
\<close>

theorem duplicate_end_trigger_ignored:
  assumes "activeCompetitions w cid = Some cd" and "competitionInProgress cd"
    and "\<forall>e \<in> set es. \<not> startsSession cid e"
  shows "let ps = map snd (participants cd);
             w1 = handleEndCompetition t1 cid c1 w;
             w2 = run es w1
         in suspended w1 = suspended w @
              [EndAwaitSave cid
                 (c1\<lparr> status := ''completed'', completedAt := Some t1,
                      finalRankings := map toRanking (finalResults ps) \<rparr>)
                 ps (finalResults ps)]
          \<and> \<not> inProgress cid w1
          \<and> \<not> inProgress cid w2
          \<and> handleEndCompetition t2 cid c2 w2 = w2
          \<and> (\<forall>i due c. i < length (timers w2) \<and> timers w2 ! i = Timer due cid c \<and> due \<le> t2
                \<longrightarrow> step (TimerFire i t2) w2 = w2\<lparr> timers := removeAt i (timers w2) \<rparr>)"
proof -
  define w1 where "w1 = handleEndCompetition t1 cid c1 w"
  define w2 where "w2 = run es w1"
  have susp: "suspended w1 = suspended w @
      [EndAwaitSave cid
         (c1\<lparr> status := ''completed'', completedAt := Some t1,
              finalRankings := map toRanking (finalResults (map snd (participants cd))) \<rparr>)
         (map snd (participants cd)) (finalResults (map snd (participants cd)))]"
    unfolding w1_def by (simp add: handleEndCompetition_accepted [OF assms(1,2)])
  have f1: "\<not> inProgress cid w1"
    unfolding w1_def by (simp add: inProgress_handleEndCompetition)
  have f2: "\<not> inProgress cid w2"
    unfolding w2_def using f1 assms(3) by (rule flag_stays_false)
  have again: "handleEndCompetition t2 cid c2 w2 = w2"
    using f2 by (rule handleEndCompetition_ignored)
  have fired: "step (TimerFire i t2) w2 = w2\<lparr> timers := removeAt i (timers w2) \<rparr>"
    if "i < length (timers w2)" "timers w2 ! i = Timer due cid c" "due \<le> t2" for i due c
  proof -
    have "\<not> inProgress cid (w2\<lparr> timers := removeAt i (timers w2) \<rparr>)"
      using f2 by (simp add: inProgress_def)
    then have "handleEndCompetition t2 cid c (w2\<lparr> timers := removeAt i (timers w2) \<rparr>)
        = w2\<lparr> timers := removeAt i (timers w2) \<rparr>"
      by (rule handleEndCompetition_ignored)
    with that show ?thesis by simp
  qed
  show ?thesis
    using susp f1 f2 again fired
    unfolding Let_def w1_def w2_def by blast
qed

theorem duplicate_end_trigger_ignored_witness:
  "activeCompetitions startedWorld ''c1''
      = Some \<lparr> competitionInProgress = True,
          participants = [(''s1'', alice\<lparr>competitionData := Some (startData 1001)\<rparr>),
                          (''s2'', bob\<lparr>competitionData := Some (startData 1002)\<rparr>)],
          lastLeaderboardUpdate = None \<rparr>
   \<and> \<not> startsSession ''c1'' (Settle 0 True 30010)
   \<and> \<not> startsSession ''c1'' (Settle 0 True 30020)
   \<and> \<not> inProgress ''c1'' (handleEndCompetition 30000 ''c1'' ongoingCompetition startedWorld)
   \<and> handleEndCompetition 61010 ''c1'' ongoingCompetition
        (run [Settle 0 True 30010, Settle 0 True 30020]
          (handleEndCompetition 30000 ''c1'' ongoingCompetition startedWorld))
      = run [Settle 0 True 30010, Settle 0 True 30020]
          (handleEndCompetition 30000 ''c1'' ongoingCompetition startedWorld)
   \<and> step (TimerFire 0 61010)
        (run [Settle 0 True 30010, Settle 0 True 30020]
          (handleEndCompetition 30000 ''c1'' ongoingCompetition startedWorld))
      = run [Settle 0 True 30010, Settle 0 True 30020]
          (handleEndCompetition 30000 ''c1'' ongoingCompetition startedWorld)
        \<lparr> timers := [] \<rparr>"
proof -
  define w2 where "w2 = run [Settle 0 True 30010, Settle 0 True 30020]
          (handleEndCompetition 30000 ''c1'' ongoingCompetition startedWorld)"
  have s: "\<forall>e \<in> set [Settle 0 True 30010, Settle 0 True 30020]. \<not> startsSession ''c1'' e"
    by simp
  have f: "competitionInProgress \<lparr> competitionInProgress = True,
          participants = [(''s1'', alice\<lparr>competitionData := Some (startData 1001)\<rparr>),
                          (''s2'', bob\<lparr>competitionData := Some (startData 1002)\<rparr>)],
          lastLeaderboardUpdate = None \<rparr>"
    by simp
  have tm: "timers w2 =
     [Timer 61010 ''c1'' (demoCompetition\<lparr> startedAt := Some 1000, status := ''ongoing'' \<rparr>)]"
    unfolding w2_def by (simp add: startedWorld_def ongoingCompetition_def demo_defs handler_defs result_defs)
  have all: "\<not> inProgress ''c1'' (handleEndCompetition 30000 ''c1'' ongoingCompetition startedWorld)
     \<and> handleEndCompetition 61010 ''c1'' ongoingCompetition w2 = w2
     \<and> (\<forall>i due c. i < length (timers w2) \<and> timers w2 ! i = Timer due ''c1'' c \<and> due \<le> 61010
           \<longrightarrow> step (TimerFire i 61010) w2 = w2\<lparr> timers := removeAt i (timers w2) \<rparr>)"
    using duplicate_end_trigger_ignored [OF startedWorld_session f s,
        of 30000 ongoingCompetition 61010 ongoingCompetition]
    unfolding Let_def w2_def by blast
  from all have "0 < length (timers w2)
        \<and> timers w2 ! 0 = Timer 61010 ''c1''
             (demoCompetition\<lparr> startedAt := Some 1000, status := ''ongoing'' \<rparr>)
        \<and> (61010 :: int) \<le> 61010
     \<longrightarrow> step (TimerFire 0 61010) w2 = w2\<lparr> timers := removeAt 0 (timers w2) \<rparr>"
    by blast
  then have "step (TimerFire 0 61010) w2 = w2\<lparr> timers := [] \<rparr>"
    by (simp add: tm removeAt_def del: step.simps)
  with all show ?thesis
    using startedWorld_session unfolding w2_def by simp
qed

lemma endedWorld_flag: "\<not> inProgress ''c1'' endedWorld"
  by (simp add: endedWorld_def startedWorld_def ongoingCompetition_def demo_defs handler_defs result_defs)

lemma endedWorld_timers:
  "timers endedWorld =
     [Timer 61010 ''c1'' (demoCompetition\<lparr> startedAt := Some 1000, status := ''ongoing'' \<rparr>)]"
  by (simp add: endedWorld_def startedWorld_def ongoingCompetition_def demo_defs handler_defs result_defs)

lemma endedWorld_suspended: "suspended endedWorld = []"
  by (simp add: endedWorld_def startedWorld_def ongoingCompetition_def demo_defs handler_defs result_defs)

lemma endedWorld_db:
  "map_option status (db_competitions endedWorld ''c1'') = Some ''completed''
   \<and> map_option startedAt (db_competitions endedWorld ''c1'') = Some (Some 1000)"
  by (simp add: endedWorld_def startedWorld_def ongoingCompetition_def demo_defs handler_defs result_defs)

lemma endedWorld_emitted: "length (emitted endedWorld) = 3"
  by (simp add: endedWorld_def startedWorld_def ongoingCompetition_def demo_defs handler_defs result_defs)

text \<open>
  Claim C3, as the code has it.  The flag \<^verbatim>\<open>competitionInProgress\<close> is no latch held for
  the time of a transition: it is true from an accepted start to the next accepted end
  trigger.  Along every sequence of events, accepted starts and accepted end triggers of
  a session take turns, the flag is true exactly if the last accepted trigger was a start
  (with none accepted it is what it was), and the settling of a database operation, which
  is where a transition ends, never changes it.
\<close>

theorem flag_tracks_accepted_triggers:
  "alternates (inProgress cid w) (accepted cid es w)
   \<and> inProgress cid (run es w) =
       (if accepted cid es w = [] then inProgress cid w
        else last (accepted cid es w) = Started)
   \<and> inProgress cid (step (Settle i ok t) w) = inProgress cid w"
  using accepted_alternates accepted_last inProgress_settle by blast

theorem flag_tracks_accepted_triggers_witness:
  "accepted ''c1'' demoEvents demoWorld = [Started, Ended]
   \<and> \<not> inProgress ''c1'' (run demoEvents demoWorld)"
proof -
  have acc: "accepted ''c1'' demoEvents demoWorld = [Started, Ended]"
    by (simp add: demoEvents_def ongoingCompetition_def demo_defs handler_defs)
  have "inProgress ''c1'' (run demoEvents demoWorld) =
       (if accepted ''c1'' demoEvents demoWorld = [] then inProgress ''c1'' demoWorld
        else last (accepted ''c1'' demoEvents demoWorld) = Started)"
    using flag_tracks_accepted_triggers [of "''c1''" demoWorld demoEvents] by blast
  then show ?thesis
    unfolding acc by simp
qed

text \<open>
  The claim as stated fails.  After a start that has run to its end the flag is true and
  no call of the session is suspended; after the end handler has passed its guard the
  flag is false while its writes are pending; and an end called while the start waits
  for its database update is accepted, so that two transitions are in flight at once.
\<close>

theorem flag_is_not_a_transition_latch_counterexample:
  "inProgress ''c1'' startedWorld \<and> inFlight ''c1'' startedWorld = []
   \<and> \<not> inProgress ''c1'' (step (EndCompetition ''c1'' ongoingCompetition 30000) startedWorld)
   \<and> length (inFlight ''c1'' (step (EndCompetition ''c1'' ongoingCompetition 30000) startedWorld)) = 1
   \<and> length (inFlight ''c1''
        (run [StartCompetition ''k'' ''c1'' True (clockFrom 1000) 0,
              EndCompetition ''c1'' demoCompetition 1005] demoWorld)) = 2"
  by (simp add: startedWorld_def ongoingCompetition_def inFlight_def demo_defs handler_defs)

section \<open>The auto-end timer\<close>

lemma timers_updateAndBroadcastLeaderboard:
  "timers (updateAndBroadcastLeaderboard now cid w) = timers w"
  by (simp add: updateAndBroadcastLeaderboard_def split: option.splits)

lemma timers_saveResults:
  "timers (saveResults now cid c ps results rest w) = timers w"
  by (induction rest) (simp_all add: timers_updateAndBroadcastLeaderboard split: option.splits)

lemma timers_handleEndCompetition:
  "timers (handleEndCompetition t cid c w) = timers w"
  by (simp add: handleEndCompetition_def Let_def split: option.splits)

lemma timers_resume_end:
  "timers (resume ok now (EndAwaitSave cid c ps results) w) = timers w"
  "timers (resume ok now (EndAwaitPush cid c ps results r rest) w) = timers w"
  by (simp_all add: timers_saveResults endFailed_def pushResult_def)

lemma timer_callback_ignored:
  assumes "\<not> inProgress cid w" and "i < length (timers w)"
    and "timers w ! i = Timer due cid c" and "due \<le> t"
  shows "step (TimerFire i t) w = w\<lparr> timers := removeAt i (timers w) \<rparr>"
proof -
  have "\<not> inProgress cid (w\<lparr> timers := removeAt i (timers w) \<rparr>)"
    using assms(1) by (simp add: inProgress_def)
  then have "handleEndCompetition t cid c (w\<lparr> timers := removeAt i (timers w) \<rparr>)
      = w\<lparr> timers := removeAt i (timers w) \<rparr>"
    by (rule handleEndCompetition_ignored)
  with assms show ?thesis by simp
qed

text \<open>
  Claim C2, as the code has it.  The end handler never touches the timers: neither the
  part up to \<^verbatim>\<open>competition.save()\<close> nor what runs after a write has settled disarms
  the timer that the start has armed (the handle of \<^verbatim>\<open>setTimeout\<close> is not even kept).
  The timer stays pending after a manual end and fires when it is due; what stops a
  second finalization is the flag: if it is false when the timer fires, the callback
  returns at the guard and nothing but the used-up timer changes.
\<close>

theorem end_keeps_timer_guard_stops_callback:
  "timers (handleEndCompetition t cid c w) = timers w
   \<and> timers (resume ok now (EndAwaitSave cid c' ps results) w) = timers w
   \<and> timers (resume ok now (EndAwaitPush cid c' ps results r rest) w) = timers w
   \<and> (\<not> inProgress cid w \<and> i < length (timers w) \<and> timers w ! i = Timer due cid c''
        \<and> due \<le> t
      \<longrightarrow> step (TimerFire i t) w = w\<lparr> timers := removeAt i (timers w) \<rparr>)"
proof (intro conjI impI)
  show "timers (handleEndCompetition t cid c w) = timers w"
    by (rule timers_handleEndCompetition)
  show "timers (resume ok now (EndAwaitSave cid c' ps results) w) = timers w"
    by (rule timers_resume_end)
  show "timers (resume ok now (EndAwaitPush cid c' ps results r rest) w) = timers w"
    by (rule timers_resume_end)
  assume "\<not> inProgress cid w \<and> i < length (timers w) \<and> timers w ! i = Timer due cid c''
        \<and> due \<le> t"
  then show "step (TimerFire i t) w = w\<lparr> timers := removeAt i (timers w) \<rparr>"
    using timer_callback_ignored [of cid w i due c'' t] by blast
qed

theorem end_keeps_timer_guard_stops_callback_witness:
  "\<not> inProgress ''c1'' endedWorld \<and> 0 < length (timers endedWorld)
   \<and> timers endedWorld ! 0 = Timer 61010 ''c1''
        (demoCompetition\<lparr> startedAt := Some 1000, status := ''ongoing'' \<rparr>)
   \<and> step (TimerFire 0 61010) endedWorld = endedWorld\<lparr> timers := [] \<rparr>"
proof -
  have "\<not> inProgress ''c1'' endedWorld \<and> 0 < length (timers endedWorld)
        \<and> timers endedWorld ! 0 = Timer 61010 ''c1''
             (demoCompetition\<lparr> startedAt := Some 1000, status := ''ongoing'' \<rparr>)
        \<and> (61010 :: int) \<le> 61010
      \<longrightarrow> step (TimerFire 0 61010) endedWorld
           = endedWorld\<lparr> timers := removeAt 0 (timers endedWorld) \<rparr>"
    using end_keeps_timer_guard_stops_callback
      [of 61010 "''c1''" ongoingCompetition endedWorld _ _ _ _ _
          _ _ 0 61010
          "demoCompetition\<lparr> startedAt := Some 1000, status := ''ongoing'' \<rparr>"]
    by blast
  then show ?thesis
    by (simp add: endedWorld_flag endedWorld_timers removeAt_def del: step.simps)
qed

text \<open>
  The claim as stated fails: the timer armed by the start for 61010 ms is still pending
  right after a manual end at 30000 ms, still pending when all the writes of that end
  have succeeded, and it does fire when it is due.
\<close>

theorem end_leaves_timer_armed_counterexample:
  "timers startedWorld = [Timer 61010 ''c1''
        (demoCompetition\<lparr> startedAt := Some 1000, status := ''ongoing'' \<rparr>)]
   \<and> timers (step (EndCompetition ''c1'' ongoingCompetition 30000) startedWorld)
      = [Timer 61010 ''c1'' (demoCompetition\<lparr> startedAt := Some 1000, status := ''ongoing'' \<rparr>)]
   \<and> timers endedWorld
      = [Timer 61010 ''c1'' (demoCompetition\<lparr> startedAt := Some 1000, status := ''ongoing'' \<rparr>)]
   \<and> timers (step (TimerFire 0 61010) endedWorld) = []"
proof -
  have "timers (step (EndCompetition ''c1'' ongoingCompetition 30000) startedWorld)
      = timers startedWorld"
    by (simp add: timers_handleEndCompetition)
  moreover have "timers (step (TimerFire 0 61010) endedWorld) = []"
    by (simp add: endedWorld_timers timers_handleEndCompetition removeAt_def)
  ultimately show ?thesis
    by (simp add: startedWorld_timers endedWorld_timers del: step.simps)
qed

section \<open>Failing writes\<close>

lemma removeAt_last: "removeAt (length xs) (xs @ [x]) = xs"
  by (simp add: removeAt_def)

text \<open>
  Claim C4, as the code has it.  The whole end handler is one \<^verbatim>\<open>try\<close> block, so a
  failing write jumps over the broadcast of line 169.  If \<^verbatim>\<open>competition.save()\<close> fails
  after an accepted end, the world differs from the one before the end in two things
  only: the flag is false (no rollback) and the console has the error line; nothing is
  emitted and nothing is stored.  A failing write of a participant result likewise
  writes the error line only.
\<close>

theorem failed_write_logged_not_broadcast:
  assumes "activeCompetitions w cid = Some cd" and "competitionInProgress cd"
  shows "step (Settle (length (suspended w)) False t') (handleEndCompetition t cid c w)
       = w\<lparr> activeCompetitions :=
              (activeCompetitions w)(cid \<mapsto> cd\<lparr>competitionInProgress := False\<rparr>),
            console := console w @ [''End competition error''] \<rparr>
     \<and> resume False t' (EndAwaitPush cid c' ps results r rest) w'
       = w'\<lparr> console := console w' @ [''End competition error''] \<rparr>"
  by (simp add: handleEndCompetition_accepted [OF assms] removeAt_last endFailed_def)

theorem failed_write_logged_not_broadcast_witness:
  "activeCompetitions startedWorld ''c1''
      = Some \<lparr> competitionInProgress = True,
          participants = [(''s1'', alice\<lparr>competitionData := Some (startData 1001)\<rparr>),
                          (''s2'', bob\<lparr>competitionData := Some (startData 1002)\<rparr>)],
          lastLeaderboardUpdate = None \<rparr>
   \<and> emitted (step (Settle 0 False 30010)
        (handleEndCompetition 30000 ''c1'' ongoingCompetition startedWorld))
      = emitted startedWorld
   \<and> console (step (Settle 0 False 30010)
        (handleEndCompetition 30000 ''c1'' ongoingCompetition startedWorld))
      = [''End competition error'']
   \<and> \<not> inProgress ''c1'' (step (Settle 0 False 30010)
        (handleEndCompetition 30000 ''c1'' ongoingCompetition startedWorld))"
proof -
  have f: "competitionInProgress \<lparr> competitionInProgress = True,
          participants = [(''s1'', alice\<lparr>competitionData := Some (startData 1001)\<rparr>),
                          (''s2'', bob\<lparr>competitionData := Some (startData 1002)\<rparr>)],
          lastLeaderboardUpdate = None \<rparr>"
    by simp
  have c0: "console startedWorld = []"
    by (simp add: startedWorld_def demo_defs handler_defs)
  have "step (Settle (length (suspended startedWorld)) False 30010)
          (handleEndCompetition 30000 ''c1'' ongoingCompetition startedWorld)
       = startedWorld\<lparr> activeCompetitions :=
              (activeCompetitions startedWorld)(''c1'' \<mapsto>
                 \<lparr> competitionInProgress = True,
                   participants = [(''s1'', alice\<lparr>competitionData := Some (startData 1001)\<rparr>),
                          (''s2'', bob\<lparr>competitionData := Some (startData 1002)\<rparr>)],
                   lastLeaderboardUpdate = None \<rparr>\<lparr>competitionInProgress := False\<rparr>),
            console := console startedWorld @ [''End competition error''] \<rparr>"
    using failed_write_logged_not_broadcast [OF startedWorld_session f] by blast
  then show ?thesis
    using startedWorld_session
    by (simp add: startedWorld_suspended c0 inProgress_def del: step.simps)
qed

text \<open>
  The claim as stated fails: after a manual end whose \<^verbatim>\<open>competition.save()\<close> fails,
  the only event ever sent is the start broadcast; no call is left that could send the
  final results.
\<close>

theorem failed_save_skips_broadcast_counterexample:
  "emitted (run [EndCompetition ''c1'' ongoingCompetition 30000, Settle 0 False 30010]
              startedWorld)
     = [ToRoom ''competition_c1''
          (CompetitionStarted (TimedConfig (Some 60) (Some ''the quick brown fox'')) 1010)]
   \<and> suspended (run [EndCompetition ''c1'' ongoingCompetition 30000, Settle 0 False 30010]
              startedWorld) = []
   \<and> console (run [EndCompetition ''c1'' ongoingCompetition 30000, Settle 0 False 30010]
              startedWorld) = [''End competition error'']"
  by (simp add: startedWorld_def ongoingCompetition_def demo_defs handler_defs result_defs)

section \<open>Starting\<close>

text \<open>
  Claim C5, as the code has it.  A start request sets the flag of a session exactly if
  the document is found, the session exists and the flag is false: the stored status is
  not read.  A request that finds the flag true is a no-op but for a console warning:
  no event is sent, nothing is stored, no call is suspended, so \<^verbatim>\<open>startedAt\<close> stays.
\<close>

theorem start_guard_is_the_flag:
  "(\<not> inProgress cid w \<and> inProgress cid (handleStartCompetition socket found clock rnd dat w))
     = (competitionId dat = cid \<and> found \<and> db_competitions w cid \<noteq> None
        \<and> activeCompetitions w cid \<noteq> None \<and> \<not> inProgress cid w)
   \<and> (found \<and> db_competitions w (competitionId dat) \<noteq> None \<and> inProgress (competitionId dat) w
        \<longrightarrow> handleStartCompetition socket found clock rnd dat w
          = w\<lparr> console := console w @
                 [''[RACE_CONDITION] Blocked duplicate startCompetition for ''
                    @ competitionId dat] \<rparr>)"
proof (intro conjI impI)
  show "(\<not> inProgress cid w \<and> inProgress cid (handleStartCompetition socket found clock rnd dat w))
     = (competitionId dat = cid \<and> found \<and> db_competitions w cid \<noteq> None
        \<and> activeCompetitions w cid \<noteq> None \<and> \<not> inProgress cid w)"
    by (auto simp add: inProgress_handleStartCompetition)
next
  assume "found \<and> db_competitions w (competitionId dat) \<noteq> None \<and> inProgress (competitionId dat) w"
  then show "handleStartCompetition socket found clock rnd dat w
          = w\<lparr> console := console w @
                 [''[RACE_CONDITION] Blocked duplicate startCompetition for ''
                    @ competitionId dat] \<rparr>"
    by (auto simp add: handleStartCompetition_def inProgress_def Let_def split: option.splits)
qed

theorem start_guard_is_the_flag_witness:
  "db_competitions startedWorld ''c1'' \<noteq> None \<and> inProgress ''c1'' startedWorld
   \<and> handleStartCompetition ''k'' True (clockFrom 2000) 0 \<lparr> competitionId = ''c1'' \<rparr> startedWorld
      = startedWorld\<lparr> console :=
          [''[RACE_CONDITION] Blocked duplicate startCompetition for c1''] \<rparr>"
proof -
  have a: "db_competitions startedWorld ''c1'' \<noteq> None"
    by (simp add: startedWorld_db)
  have b: "inProgress ''c1'' startedWorld"
    by (simp add: inProgress_def startedWorld_session)
  have c0: "console startedWorld = []"
    by (simp add: startedWorld_def demo_defs handler_defs)
  have "True \<and> db_competitions startedWorld (competitionId \<lparr> competitionId = ''c1'' \<rparr>) \<noteq> None
        \<and> inProgress (competitionId \<lparr> competitionId = ''c1'' \<rparr>) startedWorld
      \<longrightarrow> handleStartCompetition ''k'' True (clockFrom 2000) 0 \<lparr> competitionId = ''c1'' \<rparr> startedWorld
          = startedWorld\<lparr> console := console startedWorld @
                 [''[RACE_CONDITION] Blocked duplicate startCompetition for ''
                    @ competitionId \<lparr> competitionId = ''c1'' \<rparr>] \<rparr>"
    using start_guard_is_the_flag [of "''c1''" startedWorld "''k''" True "clockFrom 2000" 0
        "\<lparr> competitionId = ''c1'' \<rparr>"]
    by blast
  then show ?thesis
    using a b by (simp add: c0)
qed

text \<open>
  The claim as stated fails: the competition that was started at 1000 and has ended
  (stored status completed) is started again by a request at 90000; the stored status
  goes back to ongoing and \<^verbatim>\<open>startedAt\<close> is set a second time.
\<close>

theorem completed_session_restarts_counterexample:
  "map_option status (db_competitions endedWorld ''c1'') = Some ''completed''
   \<and> map_option startedAt (db_competitions endedWorld ''c1'') = Some (Some 1000)
   \<and> inProgress ''c1''
        (run [StartCompetition ''k'' ''c1'' True (clockFrom 90000) 0, Settle 0 True 90010] endedWorld)
   \<and> map_option status (db_competitions
        (run [StartCompetition ''k'' ''c1'' True (clockFrom 90000) 0, Settle 0 True 90010] endedWorld)
        ''c1'') = Some ''ongoing''
   \<and> map_option startedAt (db_competitions
        (run [StartCompetition ''k'' ''c1'' True (clockFrom 90000) 0, Settle 0 True 90010] endedWorld)
        ''c1'') = Some (Some 90000)"
  by (simp add: endedWorld_def startedWorld_def ongoingCompetition_def demo_defs handler_defs result_defs)

lemma resetParticipants_length: "length (resetParticipants clock k ps) = length ps"
  by (induction clock k ps rule: resetParticipants.induct) simp_all

lemma resetParticipants_nth:
  "i < length ps \<Longrightarrow>
   resetParticipants clock k ps ! i =
     (fst (ps ! i), (snd (ps ! i))\<lparr>competitionData := Some (startData (clock (k + i)))\<rparr>)"
proof (induction clock k ps arbitrary: i rule: resetParticipants.induct)
  case (1 clock k)
  then show ?case by simp
next
  case (2 clock k key p ps)
  then show ?case by (cases i) simp_all
qed

lemma activeCompetitions_resume_start:
  "activeCompetitions (resume ok now (StartAwaitUpdate socket cid c cfg) w) = activeCompetitions w"
  by (simp add: startFailed_def Let_def split: option.splits)

text \<open>
  Claim C8.  When a start request passes the guards and the configuration is built
  without an exception, every participant of the session gets fresh data: all counters
  0, \<^verbatim>\<open>completed\<close> false, and \<^verbatim>\<open>testStartTime\<close> a reading of the server clock taken
  in the same synchronous block as \<^verbatim>\<open>startedAt\<close> (reading 0), one reading for each
  participant in the order of the map.  The database update that follows leaves these
  data alone.  Nothing the client sends besides the competition id has any influence:
  the handler gives the same world on the payload stripped to its id.
\<close>

theorem start_resets_every_participant:
  assumes "found" and "db_competitions w (competitionId dat) = Some doc"
    and "activeCompetitions w (competitionId dat) = Some cd"
    and "\<not> competitionInProgress cd"
    and "buildConfig rnd (doc\<lparr> startedAt := Some (clock 0), status := ''ongoing'' \<rparr>) = Some cfg"
  shows "let w' = handleStartCompetition socket found clock rnd dat w;
             w'' = step (Settle (length (suspended w)) True now) w';
             ps' = resetParticipants clock 1 (participants cd)
         in map_option participants (activeCompetitions w' (competitionId dat)) = Some ps'
          \<and> map_option participants (activeCompetitions w'' (competitionId dat)) = Some ps'
          \<and> length ps' = length (participants cd)
          \<and> (\<forall>i < length (participants cd).
                ps' ! i = (fst (participants cd ! i),
                  (snd (participants cd ! i))\<lparr> competitionData := Some
                     \<lparr> correctChars = Some 0, totalChars = Some 0, wpm = Some 0,
                       accuracy = Some 0, errors = Some 0, backspaces = Some 0,
                       testStartTime = Some (clock (Suc i)), wordsTyped = Some 0,
                       completed = Some False, typingTime = None \<rparr> \<rparr>))
          \<and> w' = handleStartCompetition socket found clock rnd
                    \<lparr> competitionId = competitionId dat \<rparr> w"
proof -
  define w' where "w' = handleStartCompetition socket found clock rnd dat w"
  define ps' where "ps' = resetParticipants clock 1 (participants cd)"
  have acc: "w' = w\<lparr> activeCompetitions := (activeCompetitions w)
          (competitionId dat \<mapsto> cd\<lparr> competitionInProgress := True, participants := ps' \<rparr>),
        suspended := suspended w @
          [StartAwaitUpdate socket (competitionId dat)
             (doc\<lparr> startedAt := Some (clock 0), status := ''ongoing'' \<rparr>) cfg] \<rparr>"
    unfolding w'_def ps'_def using assms by (simp add: handleStartCompetition_def Let_def)
  have p1: "map_option participants (activeCompetitions w' (competitionId dat)) = Some ps'"
    by (simp add: acc)
  have "activeCompetitions (step (Settle (length (suspended w)) True now) w')
      = activeCompetitions w'"
    by (simp add: acc activeCompetitions_resume_start del: resume.simps)
  with p1 have p2: "map_option participants
      (activeCompetitions (step (Settle (length (suspended w)) True now) w') (competitionId dat))
      = Some ps'"
    by simp
  have p3: "length ps' = length (participants cd)"
    by (simp add: ps'_def resetParticipants_length)
  have p4: "ps' ! i = (fst (participants cd ! i),
                  (snd (participants cd ! i))\<lparr> competitionData := Some
                     \<lparr> correctChars = Some 0, totalChars = Some 0, wpm = Some 0,
                       accuracy = Some 0, errors = Some 0, backspaces = Some 0,
                       testStartTime = Some (clock (Suc i)), wordsTyped = Some 0,
                       completed = Some False, typingTime = None \<rparr> \<rparr>)"
    if "i < length (participants cd)" for i
    using that by (simp add: ps'_def resetParticipants_nth startData_def)
  have p5: "w' = handleStartCompetition socket found clock rnd
                    \<lparr> competitionId = competitionId dat \<rparr> w"
    by (simp add: w'_def handleStartCompetition_def)
  show ?thesis
    using p1 p2 p3 p4 p5 unfolding Let_def w'_def ps'_def by blast
qed

theorem start_resets_every_participant_witness:
  "db_competitions demoWorld ''c1'' = Some demoCompetition
   \<and> activeCompetitions demoWorld ''c1'' = Some demoSession
   \<and> \<not> competitionInProgress demoSession
   \<and> buildConfig 0 (demoCompetition\<lparr> startedAt := Some 1000, status := ''ongoing'' \<rparr>)
       = Some (TimedConfig (Some 60) (Some ''the quick brown fox''))
   \<and> map_option participants (activeCompetitions
         (handleStartCompetition ''k'' True (clockFrom 1000) 0 \<lparr> competitionId = ''c1'' \<rparr>
            demoWorld) ''c1'')
      = Some [(''s1'', alice\<lparr> competitionData := Some (startData 1001) \<rparr>),
              (''s2'', bob\<lparr> competitionData := Some (startData 1002) \<rparr>)]"
proof -
  have a: "db_competitions demoWorld (competitionId \<lparr> competitionId = ''c1'' \<rparr>)
      = Some demoCompetition"
    by (simp add: demoWorld_def)
  have b: "activeCompetitions demoWorld (competitionId \<lparr> competitionId = ''c1'' \<rparr>)
      = Some demoSession"
    by (simp add: demoWorld_def)
  have c: "\<not> competitionInProgress demoSession"
    by (simp add: demoSession_def)
  have d: "buildConfig 0 (demoCompetition\<lparr> startedAt := Some (clockFrom 1000 0),
        status := ''ongoing'' \<rparr>) = Some (TimedConfig (Some 60) (Some ''the quick brown fox''))"
    by (simp add: buildConfig_def demoCompetition_def elemAt_def)
  have "map_option participants (activeCompetitions
         (handleStartCompetition ''k'' True (clockFrom 1000) 0 \<lparr> competitionId = ''c1'' \<rparr>
            demoWorld) (competitionId \<lparr> competitionId = ''c1'' \<rparr>))
      = Some (resetParticipants (clockFrom 1000) 1 (participants demoSession))"
    using start_resets_every_participant [of True demoWorld "\<lparr> competitionId = ''c1'' \<rparr>"
        demoCompetition demoSession 0 "clockFrom 1000"
        "TimedConfig (Some 60) (Some ''the quick brown fox'')" "''k''" 1010, OF _ a b c d]
    unfolding Let_def by blast
  then show ?thesis
    using a b c d by (simp add: demoSession_def clockFrom_def)
qed

section \<open>The final results\<close>

lemma unranked_toResult: "unranked (toResult p) = toResult p"
  by (simp add: unranked_def toResult_def Let_def)

lemma finalResults_records:
  "mset (map unranked (finalResults ps)) = mset (map toResult ps)"
proof -
  have "map unranked (map toResult ps) = map toResult ps"
    by (rule map_idI) (auto simp add: unranked_toResult)
  then have "mset (map unranked (map toResult ps)) = mset (map toResult ps)"
    by (rule arg_cong)
  with rankResults_permutation [of "map toResult ps"] show ?thesis
    unfolding finalResults_def by (rule trans)
qed

lemma finalResults_ranks: "map r_rank (finalResults ps) = [1 ..< Suc (length ps)]"
  by (simp add: finalResults_def rankResults_ranks)

lemma finalResults_member:
  assumes "p \<in> set ps"
  shows "\<exists>r \<in> set (finalResults ps).
           unranked r = toResult p \<and> 1 \<le> r_rank r \<and> r_rank r \<le> length ps"
proof -
  have "toResult p \<in># mset (map toResult ps)"
    using assms by simp
  then have "toResult p \<in> set (map unranked (finalResults ps))"
    by (simp only: finalResults_records [symmetric] set_mset_mset)
  then obtain r where r: "r \<in> set (finalResults ps)" and u: "unranked r = toResult p"
    by auto
  from r have "r_rank r \<in> set (map r_rank (finalResults ps))"
    by simp
  then have "1 \<le> r_rank r \<and> r_rank r \<le> length ps"
    by (simp only: finalResults_ranks) auto
  with r u show ?thesis by blast
qed

lemma toResult_defaults:
  assumes "competitionData p = None \<or> competitionData p = Some (startData t0)"
  shows "toResult p =
     \<lparr> r_participantName = name p, r_participantId = socketId p, r_wpm = 0, r_accuracy = 0,
       r_correctChars = 0, r_totalChars = 0, r_incorrectChars = 0, r_errors = 0,
       r_backspaces = 0, r_rank = 0, r_typingTime = 0, r_wordsTyped = 0,
       r_completed = False \<rparr>"
  using assms
  by (auto simp add: toResult_def emptyData_def startData_def or0_def orFalse_def)

text \<open>
  Claim C10.  When an end trigger is accepted, the call goes on with the final results
  of the participants of the session, the values of the map in insertion order.  These
  results are, ranks apart, the records \<open>toResult p\<close> of the participants, one for each
  (as multisets, so nobody is left out or counted twice); their ranks are
  \<open>1, ..., N\<close>.  So every participant has a record with a rank between 1 and \<open>N\<close>; and
  a participant whose data are missing (joined, never started) or are still the ones the
  start handler wrote (no progress since) has 0 for every counter and false for
  \<^verbatim>\<open>completed\<close>.
\<close>

theorem final_results_cover_every_participant:
  assumes "activeCompetitions w cid = Some cd" and "competitionInProgress cd"
  shows "let ps = map snd (participants cd) in
      suspended (handleEndCompetition t cid c w) = suspended w @
         [EndAwaitSave cid
            (c\<lparr> status := ''completed'', completedAt := Some t,
                finalRankings := map toRanking (finalResults ps) \<rparr>)
            ps (finalResults ps)]
      \<and> length (finalResults ps) = length ps
      \<and> mset (map unranked (finalResults ps)) = mset (map toResult ps)
      \<and> map r_rank (finalResults ps) = [1 ..< Suc (length ps)]
      \<and> (\<forall>p \<in> set ps.
            (\<exists>r \<in> set (finalResults ps).
               unranked r = toResult p \<and> 1 \<le> r_rank r \<and> r_rank r \<le> length ps)
            \<and> (competitionData p = None \<or> (\<exists>t0. competitionData p = Some (startData t0))
               \<longrightarrow> toResult p =
                 \<lparr> r_participantName = name p, r_participantId = socketId p, r_wpm = 0,
                   r_accuracy = 0, r_correctChars = 0, r_totalChars = 0,
                   r_incorrectChars = 0, r_errors = 0, r_backspaces = 0, r_rank = 0,
                   r_typingTime = 0, r_wordsTyped = 0, r_completed = False \<rparr>))"
proof -
  define ps where "ps = map snd (participants cd)"
  have s: "suspended (handleEndCompetition t cid c w) = suspended w @
         [EndAwaitSave cid
            (c\<lparr> status := ''completed'', completedAt := Some t,
                finalRankings := map toRanking (finalResults ps) \<rparr>)
            ps (finalResults ps)]"
    unfolding ps_def by (simp add: handleEndCompetition_accepted [OF assms])
  have l: "length (finalResults ps) = length ps"
    by (simp add: finalResults_def rankResults_length)
  have each: "(\<exists>r \<in> set (finalResults ps).
               unranked r = toResult p \<and> 1 \<le> r_rank r \<and> r_rank r \<le> length ps)
            \<and> (competitionData p = None \<or> (\<exists>t0. competitionData p = Some (startData t0))
               \<longrightarrow> toResult p =
                 \<lparr> r_participantName = name p, r_participantId = socketId p, r_wpm = 0,
                   r_accuracy = 0, r_correctChars = 0, r_totalChars = 0,
                   r_incorrectChars = 0, r_errors = 0, r_backspaces = 0, r_rank = 0,
                   r_typingTime = 0, r_wordsTyped = 0, r_completed = False \<rparr>)"
    if "p \<in> set ps" for p
    using finalResults_member [OF that] toResult_defaults [of p] by blast
  show ?thesis
    using s l finalResults_records [of ps] finalResults_ranks [of ps] each
    unfolding Let_def ps_def by blast
qed

theorem final_results_cover_every_participant_witness:
  "activeCompetitions startedWorld ''c1''
      = Some \<lparr> competitionInProgress = True,
          participants = [(''s1'', alice\<lparr>competitionData := Some (startData 1001)\<rparr>),
                          (''s2'', bob\<lparr>competitionData := Some (startData 1002)\<rparr>)],
          lastLeaderboardUpdate = None \<rparr>
   \<and> map r_rank (finalResults [alice\<lparr>competitionData := Some (startData 1001)\<rparr>,
                                 bob\<lparr>competitionData := Some (startData 1002)\<rparr>]) = [1, 2]
   \<and> toResult (bob\<lparr>competitionData := Some (startData 1002)\<rparr>) =
        \<lparr> r_participantName = ''bob'', r_participantId = ''s2'', r_wpm = 0,
          r_accuracy = 0, r_correctChars = 0, r_totalChars = 0,
          r_incorrectChars = 0, r_errors = 0, r_backspaces = 0, r_rank = 0,
          r_typingTime = 0, r_wordsTyped = 0, r_completed = False \<rparr>"
proof -
  define cd where "cd = \<lparr> competitionInProgress = True,
          participants = [(''s1'', alice\<lparr>competitionData := Some (startData 1001)\<rparr>),
                          (''s2'', bob\<lparr>competitionData := Some (startData 1002)\<rparr>)],
          lastLeaderboardUpdate = None \<rparr>"
  have a: "activeCompetitions startedWorld ''c1'' = Some cd"
    unfolding cd_def by (rule startedWorld_session)
  have f: "competitionInProgress cd"
    by (simp add: cd_def)
  have ps: "map snd (participants cd) = [alice\<lparr>competitionData := Some (startData 1001)\<rparr>,
                                 bob\<lparr>competitionData := Some (startData 1002)\<rparr>]"
    by (simp add: cd_def)
  note inst = final_results_cover_every_participant [OF a f, of 30000 ongoingCompetition,
      unfolded Let_def ps]
  from inst have ranks: "map r_rank (finalResults [alice\<lparr>competitionData := Some (startData 1001)\<rparr>,
                                 bob\<lparr>competitionData := Some (startData 1002)\<rparr>])
      = [1 ..< Suc (length [alice\<lparr>competitionData := Some (startData 1001)\<rparr>,
                                 bob\<lparr>competitionData := Some (startData 1002)\<rparr>])]"
    by blast
  from inst have "competitionData (bob\<lparr>competitionData := Some (startData 1002)\<rparr>) = None
        \<or> (\<exists>t0. competitionData (bob\<lparr>competitionData := Some (startData 1002)\<rparr>)
              = Some (startData t0))
      \<longrightarrow> toResult (bob\<lparr>competitionData := Some (startData 1002)\<rparr>) =
        \<lparr> r_participantName = name (bob\<lparr>competitionData := Some (startData 1002)\<rparr>),
          r_participantId = socketId (bob\<lparr>competitionData := Some (startData 1002)\<rparr>),
          r_wpm = 0, r_accuracy = 0, r_correctChars = 0, r_totalChars = 0,
          r_incorrectChars = 0, r_errors = 0, r_backspaces = 0, r_rank = 0,
          r_typingTime = 0, r_wordsTyped = 0, r_completed = False \<rparr>"
    by simp
  moreover have "\<exists>t0. competitionData (bob\<lparr>competitionData := Some (startData 1002)\<rparr>)
              = Some (startData t0)"
    by auto
  ultimately have "toResult (bob\<lparr>competitionData := Some (startData 1002)\<rparr>) =
        \<lparr> r_participantName = ''bob'', r_participantId = ''s2'',
          r_wpm = 0, r_accuracy = 0, r_correctChars = 0, r_totalChars = 0,
          r_incorrectChars = 0, r_errors = 0, r_backspaces = 0, r_rank = 0,
          r_typingTime = 0, r_wordsTyped = 0, r_completed = False \<rparr>"
    by (simp add: bob_def)
  with ranks a show ?thesis
    unfolding cd_def by (simp add: upt_rec)
qed

section \<open>The throttle of the leaderboard\<close>

lemma emitted_updateAndBroadcastLeaderboard:
  "activeCompetitions w cid = Some cd \<Longrightarrow>
   length (emitted (updateAndBroadcastLeaderboard now cid w)) = Suc (length (emitted w))"
  by (simp add: updateAndBroadcastLeaderboard_def)

lemma lastBroadcast_updateAndBroadcastLeaderboard:
  "activeCompetitions w cid = Some cd \<Longrightarrow>
   lastBroadcast cid (updateAndBroadcastLeaderboard now cid w) = Some now"
  by (simp add: updateAndBroadcastLeaderboard_def lastBroadcast_def)

lemma notification_closed:
  assumes "lastBroadcast cid w = Some l" and "l \<noteq> 0" and "now - l < 1000"
  shows "progressNotification strict now cid w = w"
  using assms
  by (auto simp add: progressNotification_def lastBroadcast_def throttleOpen_def
      split: option.splits)

lemma notification_cases:
  assumes "lastBroadcast cid w = Some l" and "l \<noteq> 0"
  shows "(progressNotification strict now cid w = w
          \<and> emissionTimes strict (now # ts) cid w = emissionTimes strict ts cid w)
       \<or> ((if strict then now - l > 1000 else now - l \<ge> 1000)
          \<and> lastBroadcast cid (progressNotification strict now cid w) = Some now
          \<and> emissionTimes strict (now # ts) cid w
             = now # emissionTimes strict ts cid (progressNotification strict now cid w))"
proof -
  from assms(1) obtain cd where cd: "activeCompetitions w cid = Some cd"
    and l: "lastLeaderboardUpdate cd = Some l"
    by (auto simp add: lastBroadcast_def split: option.splits)
  show ?thesis
  proof (cases "throttleOpen strict now cd")
    case True
    then have gap: "if strict then now - l > 1000 else now - l \<ge> 1000"
      using l assms(2) by (simp add: throttleOpen_def)
    have pn: "progressNotification strict now cid w = updateAndBroadcastLeaderboard now cid w"
      using cd True by (simp add: progressNotification_def)
    show ?thesis
      using gap cd
      by (simp add: pn emitted_updateAndBroadcastLeaderboard
          lastBroadcast_updateAndBroadcastLeaderboard Let_def)
  next
    case False
    then have "progressNotification strict now cid w = w"
      using cd by (simp add: progressNotification_def)
    then show ?thesis by simp
  qed
qed

lemma emissions_after_broadcast:
  assumes "lastBroadcast cid w = Some l" and "l \<noteq> 0" and "\<forall>t \<in> set ts. t \<noteq> 0"
  shows "successively (gap strict) (l # emissionTimes strict ts cid w)"
  using assms
proof (induction ts arbitrary: w l)
  case Nil
  show ?case by simp
next
  case (Cons t ts)
  from Cons.prems have t0: "t \<noteq> 0" and rest: "\<forall>t \<in> set ts. t \<noteq> 0"
    by simp_all
  from notification_cases [OF Cons.prems(1,2), of strict t ts]
  show ?case
  proof
    assume a: "progressNotification strict t cid w = w
          \<and> emissionTimes strict (t # ts) cid w = emissionTimes strict ts cid w"
    have "successively (gap strict) (l # emissionTimes strict ts cid w)"
      by (rule Cons.IH [OF Cons.prems(1,2) rest])
    with a show ?thesis by simp
  next
    assume b: "(if strict then t - l > 1000 else t - l \<ge> 1000)
          \<and> lastBroadcast cid (progressNotification strict t cid w) = Some t
          \<and> emissionTimes strict (t # ts) cid w
             = t # emissionTimes strict ts cid (progressNotification strict t cid w)"
    then have "successively (gap strict)
        (t # emissionTimes strict ts cid (progressNotification strict t cid w))"
      using Cons.IH [of "progressNotification strict t cid w" t] t0 rest by blast
    with b show ?thesis
      by (simp add: gap_def del: emissionTimes.simps)
  qed
qed

lemma emissions_first:
  assumes "lastBroadcast cid w \<noteq> Some 0" and "\<forall>t \<in> set ts. t \<noteq> 0"
  shows "successively (gap strict) (emissionTimes strict ts cid w)"
proof (cases "lastBroadcast cid w")
  case (Some l)
  with assms have "successively (gap strict) (l # emissionTimes strict ts cid w)"
    by (intro emissions_after_broadcast) auto
  then show ?thesis
    by (auto simp add: successively_Cons)
next
  case None
  show ?thesis
    using None assms(2)
  proof (induction ts arbitrary: w)
    case Nil
    show ?case by simp
  next
    case (Cons t ts)
    from Cons.prems have t0: "t \<noteq> 0" and rest: "\<forall>t \<in> set ts. t \<noteq> 0"
      by simp_all
    show ?case
    proof (cases "activeCompetitions w cid")
      case None
      then have "progressNotification strict t cid w = w"
        by (simp add: progressNotification_def)
      then have "emissionTimes strict (t # ts) cid w = emissionTimes strict ts cid w"
        by simp
      with Cons.IH [OF Cons.prems(1) rest] show ?thesis by simp
    next
      case (Some cd)
      with Cons.prems(1) have "lastLeaderboardUpdate cd = None"
        by (simp add: lastBroadcast_def)
      then have pn: "progressNotification strict t cid w
          = updateAndBroadcastLeaderboard t cid w"
        using Some by (simp add: progressNotification_def throttleOpen_def)
      have lb: "lastBroadcast cid (progressNotification strict t cid w) = Some t"
        by (simp add: pn lastBroadcast_updateAndBroadcastLeaderboard [OF Some])
      have et: "emissionTimes strict (t # ts) cid w
          = t # emissionTimes strict ts cid (progressNotification strict t cid w)"
        by (simp add: pn emitted_updateAndBroadcastLeaderboard [OF Some] Let_def)
      show ?thesis
        unfolding et by (rule emissions_after_broadcast [OF lb t0 rest])
    qed
  qed
qed

lemma gap_sorted:
  assumes "successively (gap strict) xs"
  shows "sorted_wrt (\<lambda>a b. b - a \<ge> 1000) xs"
    and "strict \<Longrightarrow> sorted_wrt (\<lambda>a b. b - a > 1000) xs"
proof -
  have "successively (\<lambda>a b. b - a \<ge> 1000) xs"
    using assms by (rule successively_mono) (auto simp add: gap_def split: if_splits)
  moreover have "transp (\<lambda>a b :: int. b - a \<ge> 1000)"
    by (rule transpI) linarith
  ultimately show "sorted_wrt (\<lambda>a b. b - a \<ge> 1000) xs"
    by (simp add: successively_conv_sorted_wrt)
  assume strict
  then have "successively (\<lambda>a b. b - a > 1000) xs"
    using assms by (simp add: gap_def [abs_def])
  moreover have "transp (\<lambda>a b :: int. b - a > 1000)"
    by (rule transpI) linarith
  ultimately show "sorted_wrt (\<lambda>a b. b - a > 1000) xs"
    by (simp add: successively_conv_sorted_wrt)
qed

text \<open>
  Claim C9.  Take any sequence of progress notifications of a session, at instants of
  the server clock that are not 0 (the clock is not assumed to go forward), from a
  session whose timestamp is not the falsy 0.  Then any two instants at which a
  leaderboard is emitted are at least 1000 ms apart, and more than 1000 ms with the
  comparison of the README; the first emission is as far from a broadcast recorded
  before.  A notification less than 1000 ms after the last broadcast leaves the world
  as it is: nothing is emitted, and nothing is kept for later.
\<close>

theorem leaderboard_throttle:
  assumes "lastBroadcast cid w \<noteq> Some 0" and "\<forall>t \<in> set ts. t \<noteq> 0"
  shows "sorted_wrt (\<lambda>a b. b - a \<ge> 1000) (emissionTimes strict ts cid w)
     \<and> sorted_wrt (\<lambda>a b. b - a > 1000) (emissionTimes True ts cid w)
     \<and> (\<forall>l. lastBroadcast cid w = Some l
           \<longrightarrow> sorted_wrt (\<lambda>a b. b - a \<ge> 1000) (l # emissionTimes strict ts cid w))
     \<and> (\<forall>l now. lastBroadcast cid w = Some l \<and> now - l < 1000
           \<longrightarrow> progressNotification strict now cid w = w)"
proof (intro conjI allI impI)
  show "sorted_wrt (\<lambda>a b. b - a \<ge> 1000) (emissionTimes strict ts cid w)"
    by (rule gap_sorted(1) [OF emissions_first [OF assms]])
  show "sorted_wrt (\<lambda>a b. b - a > 1000) (emissionTimes True ts cid w)"
    by (rule gap_sorted(2) [OF emissions_first [OF assms]]) simp
next
  fix l
  assume l: "lastBroadcast cid w = Some l"
  with assms(1) have "l \<noteq> 0" by auto
  then have "successively (gap strict) (l # emissionTimes strict ts cid w)"
    using l assms(2) by (intro emissions_after_broadcast)
  then show "sorted_wrt (\<lambda>a b. b - a \<ge> 1000) (l # emissionTimes strict ts cid w)"
    by (rule gap_sorted(1))
next
  fix l now
  assume a: "lastBroadcast cid w = Some l \<and> now - l < 1000"
  with assms(1) have "l \<noteq> 0" by auto
  with a show "progressNotification strict now cid w = w"
    by (intro notification_closed [of cid w l now]) auto
qed

lemmas throttle_defs = progressNotification_def throttleOpen_def lastBroadcast_def
  updateAndBroadcastLeaderboard_def

theorem leaderboard_throttle_witness:
  "lastBroadcast ''c1'' demoWorld \<noteq> Some 0
   \<and> emissionTimes True [5000, 5400, 6000, 6001, 7002] ''c1'' demoWorld = [5000, 6001, 7002]
   \<and> sorted_wrt (\<lambda>a b. b - a > 1000) [5000, 6001, 7002 :: int]
   \<and> emissionTimes False [5000, 5400, 6000, 6001, 7002] ''c1'' demoWorld = [5000, 6000, 7002]"
proof -
  have a: "lastBroadcast ''c1'' demoWorld \<noteq> Some 0"
    by (simp add: lastBroadcast_def demoWorld_def demoSession_def)
  have b: "\<forall>t \<in> set [5000, 5400, 6000, 6001, 7002 :: int]. t \<noteq> 0"
    by simp
  have e1: "emissionTimes True [5000, 5400, 6000, 6001, 7002] ''c1'' demoWorld
      = [5000, 6001, 7002]"
    by (simp add: throttle_defs demoWorld_def demoSession_def Let_def)
  have e2: "emissionTimes False [5000, 5400, 6000, 6001, 7002] ''c1'' demoWorld
      = [5000, 6000, 7002]"
    by (simp add: throttle_defs demoWorld_def demoSession_def Let_def)
  have "sorted_wrt (\<lambda>a b. b - a > 1000)
      (emissionTimes True [5000, 5400, 6000, 6001, 7002] ''c1'' demoWorld)"
    using leaderboard_throttle [OF a b, of True] by blast
  then show ?thesis
    using a e2 unfolding e1 by blast
qed

section \<open>The scoring formulas\<close>

text \<open>
  Claim C7.  For a positive total and a positive time the calculator gives
  \<open>wpm = (correct / 5) / (seconds / 60)\<close>, which is \<open>12 * correct / seconds\<close>, and
  \<open>accuracy = correct / total * 100\<close>; the accuracy of a total of 0 is 0; and 400 correct
  characters of 410 in 60 seconds are 80 words per minute at an accuracy of
  \<open>4000 / 41\<close>, about 97.56.
\<close>

theorem scoring_formulas:
  "(0 < totalCount \<and> 0 < elapsedSeconds
      \<longrightarrow> calcWpm correctCount elapsedSeconds = (correctCount / 5) / (elapsedSeconds / 60)
        \<and> calcWpm correctCount elapsedSeconds * elapsedSeconds = 12 * correctCount
        \<and> calcAccuracy correctCount totalCount = (correctCount / totalCount) * 100
        \<and> calcAccuracy correctCount totalCount * totalCount = 100 * correctCount)
   \<and> calcAccuracy correctCount 0 = 0
   \<and> calcWpm 400 60 = 80
   \<and> calcAccuracy 400 410 = 4000 / 41"
  by (simp add: calcWpm_def calcAccuracy_def)

theorem scoring_formulas_witness:
  "(0 :: real) < 330 \<and> (0 :: real) < 60
   \<and> calcWpm 300 60 = 60 \<and> calcAccuracy 300 330 * 330 = 100 * 300
   \<and> calcWpm 400 60 = 80 \<and> calcAccuracy 400 410 = 4000 / 41"
  using scoring_formulas [of 330 60 300] by (simp add: calcWpm_def)

end
